theory Spec2Isabelle
  imports Main
begin

section \<open>Watch mode of elm-review: src/lib/watch.js\<close>

text \<open>
  The module installs five file-system watchers per call of \<open>watchFiles\<close> (one
  "generation"), keeps a cache of source files, debounces refreshes of the suppression
  folder and restarts the whole process when the manifest or the configuration changes.
  Handlers are \<open>async\<close> functions: each runs without interruption up to its next
  \<open>await\<close>, and other handlers may run while it is suspended. The model is a
  deterministic step function over events; an event is a call of the entry point, a
  notification of the watch mechanism, the settling of an awaited promise, or the passage
  of time. Every stretch of code between two suspension points is one function below.
\<close>

subsection \<open>Data\<close>

datatype json =
    JNull
  | JBool bool
  | JNumber int
  | JString string
  | JArray "json list"
  | JObject "(string \<times> json) list"

text \<open>ElmFile: \<open>{path, source, ast}\<close>; \<open>ast\<close> is \<open>null\<close> or an opaque parsed form.\<close>

record elmFile =
  path :: string
  source :: string
  ast :: "json option"

record readme =
  readme_path :: string
  readme_content :: string

text \<open>The fields of \<open>Options\<close> and \<open>WatchOptions\<close> that watch.js reads.\<close>

record options =
  elmJsonPath :: string
  readmePath :: "string option"
  report :: string
  debug :: bool
  watchConfig :: bool
  suppressedErrorsFolder :: string
  userSrc :: string

record watchOptions =
  app :: nat
  elmJsonData_project :: json
  elmFiles :: "elmFile list"
  sourceDirectories :: "string list"
  reviewElmJson_source_directories :: "string list"
  reviewElmJsonPath :: "string option"

text \<open>
  Pure helpers that watch.js calls and that live outside it (Node built-ins, chokidar's
  pattern matcher, \<open>OsHelpers\<close>, \<open>Anonymize\<close>) are parameters of the model.
\<close>

record externals =
  makePathOsAgnostic :: "string \<Rightarrow> string"
  path_relative :: "string \<Rightarrow> string \<Rightarrow> string"
  path_resolve :: "string \<Rightarrow> string \<Rightarrow> string"
  process_cwd :: string
  process_platform :: string
  JSON_stringify :: "json \<Rightarrow> string"
  anonymize_path :: "options \<Rightarrow> string \<Rightarrow> string"
  glob_matches :: "string \<Rightarrow> string \<Rightarrow> bool"

datatype handle = Manifest | Readme | SourceFiles | SuppressionFolder | ConfigurationFiles

datatype kind = Add | Change | Unlink | Error

text \<open>What the module does to the outside, in the order it does it.\<close>

datatype effect =
    RequestReview nat
  | CollectReadme nat readme
  | CollectFile nat nat elmFile
  | RemoveFile nat string
  | UpdateSuppressedErrors nat json
  | DebugLog string
  | ConsoleLog string
  | StdoutWrite string
  | WatcherClose nat handle
  | RebuildAndRewatch nat
  | OnError nat string
  | UnhandledError nat handle string
  | UnhandledRejection

text \<open>
  \<open>runReview\<close> is a variable holding a function: first the closure that calls
  \<open>Runner.requestReview(options, app)\<close>, after a restart trigger \<open>() => {}\<close>.
\<close>

datatype runReviewFn = CallRequestReview | DoNothing

record watcher =
  w_paths :: "string list"
  w_ignored :: "string list"
  w_ignoreInitial :: bool
  w_closed :: bool

text \<open>The variables one call of \<open>watchFiles\<close> closes over.\<close>

record generation =
  g_options :: options
  g_app :: nat
  elmJsonContent :: json
  runReview :: runReviewFn
  suppressedErrorsTimeout :: "nat option"
  elmJsonWatcher :: watcher
  readmeWatcher :: "watcher option"
  fileWatcher :: watcher
  suppressedErrorsWatcher :: watcher
  configurationWatcher :: "watcher option"

text \<open>
  A suspended handler: what it awaits and the local variables it resumes with. The first
  argument is the generation whose closure the handler belongs to.
\<close>

datatype task =
    ElmJsonRead nat
  | ElmJsonClosing nat
  | ReadmeAddRead nat string
  | ReadmeChangeRead nat string
  | FileAddRead nat string nat bool
  | FileChangeRead nat string nat
  | SuppressedErrorsRead nat
  | ConfigurationClosing nat
  | RestartClosing nat

fun task_gen :: "task \<Rightarrow> nat" where
  "task_gen (ElmJsonRead g) = g"
| "task_gen (ElmJsonClosing g) = g"
| "task_gen (ReadmeAddRead g p) = g"
| "task_gen (ReadmeChangeRead g p) = g"
| "task_gen (FileAddRead g p a n) = g"
| "task_gen (FileChangeRead g p a) = g"
| "task_gen (SuppressedErrorsRead g) = g"
| "task_gen (ConfigurationClosing g) = g"
| "task_gen (RestartClosing g) = g"

record timer =
  t_id :: nat
  t_due :: nat
  t_gen :: nat

text \<open>
  The process: the module-level flag, the listeners on stdin, the store of file objects
  (an address is an index), the caches of \<open>AppState\<close>, the generations, the suspended
  handlers, the timers and the clock (milliseconds), and the effects so far.
\<close>

record state =
  isFlushingStdio :: bool
  stdinReadableListeners :: nat
  heap :: "elmFile list"
  elmFilesCache :: "string \<rightharpoonup> nat"
  readmeCache :: "readme option"
  gens :: "generation list"
  tasks :: "task list"
  timers :: "timer list"
  now :: nat
  nextTimerId :: nat
  trace :: "effect list"

definition initial :: state where
  "initial = \<lparr>isFlushingStdio = False, stdinReadableListeners = 0, heap = [],
     elmFilesCache = Map.empty, readmeCache = None, gens = [], tasks = [], timers = [],
     now = 0, nextTimerId = 1, trace = []\<rparr>"

datatype settled = Fulfilled_unit | Fulfilled_string string | Fulfilled_json json | Rejected

datatype event =
    CallWatchFiles options watchOptions
  | Emit nat handle kind string
  | Settle nat settled
  | Elapse nat

subsection \<open>Primitives\<close>

definition emit :: "effect \<Rightarrow> state \<Rightarrow> state" where
  "emit e s = s\<lparr>trace := trace s @ [e]\<rparr>"

definition suspend :: "task \<Rightarrow> state \<Rightarrow> state" where
  "suspend t s = s\<lparr>tasks := tasks s @ [t]\<rparr>"

definition update_gen :: "nat \<Rightarrow> (generation \<Rightarrow> generation) \<Rightarrow> state \<Rightarrow> state" where
  "update_gen g f s = s\<lparr>gens := (gens s)[g := f (gens s ! g)]\<rparr>"

definition call_runReview :: "nat \<Rightarrow> state \<Rightarrow> state" where
  "call_runReview g s =
     (case runReview (gens s ! g) of
        CallRequestReview \<Rightarrow> emit (RequestReview g) s
      | DoNothing \<Rightarrow> s)"

definition setTimeout :: "nat \<Rightarrow> nat \<Rightarrow> state \<Rightarrow> state" where
  "setTimeout g delay s =
     s\<lparr>timers := timers s @ [\<lparr>t_id = nextTimerId s, t_due = now s + delay, t_gen = g\<rparr>],
       nextTimerId := Suc (nextTimerId s)\<rparr>"

definition clearTimeout :: "nat option \<Rightarrow> state \<Rightarrow> state" where
  "clearTimeout tid s =
     (case tid of
        None \<Rightarrow> s
      | Some i \<Rightarrow> s\<lparr>timers := filter (\<lambda>t. t_id t \<noteq> i) (timers s)\<rparr>)"

definition chokidar_watch :: "string list \<Rightarrow> string list \<Rightarrow> watcher" where
  "chokidar_watch paths ignored =
     \<lparr>w_paths = paths, w_ignored = ignored, w_ignoreInitial = True, w_closed = False\<rparr>"

definition close_watcher :: "watcher \<Rightarrow> watcher" where
  "close_watcher w = w\<lparr>w_closed := True\<rparr>"

text \<open>\<open>clearConsole\<close>, lines 338 to 344.\<close>

definition clearConsole_sequence :: "externals \<Rightarrow> string" where
  "clearConsole_sequence ext =
     (if process_platform ext = ''win32''
      then CHR 0x1B # ''[2J'' @ CHR 0x1B # ''[0f''
      else CHR 0x1B # ''[2J'' @ CHR 0x1B # ''[3J'' @ CHR 0x1B # ''[H'')"

definition clearConsole :: "externals \<Rightarrow> state \<Rightarrow> state" where
  "clearConsole ext s = emit (StdoutWrite (clearConsole_sequence ext)) s"

subsection \<open>AppState\<close>

text \<open>
  Modelled from the spec: \<open>AppState.getFileFromMemoryCache\<close> (its module,
  lib/state.js, lies outside watch.js). "lookup(path) -> Optional<FileRecord>: O(1), no
  side effect"; the result is a reference to the cached object.
\<close>

definition getFileFromMemoryCache :: "string \<Rightarrow> state \<Rightarrow> nat option" where
  "getFileFromMemoryCache p s = elmFilesCache s p"

text \<open>
  Modelled from the spec: \<open>AppState.filesWereUpdated\<close>. The file cache is a "mapping from
  normalized path to cached file record"; a record is registered under its own path, by
  reference.
\<close>

definition filesWereUpdated :: "nat list \<Rightarrow> state \<Rightarrow> state" where
  "filesWereUpdated addrs s =
     foldl (\<lambda>s a. s\<lparr>elmFilesCache := (elmFilesCache s)(path (heap s ! a) \<mapsto> a)\<rparr>) s addrs"

text \<open>
  Modelled from the spec: \<open>AppState.readmeChanged\<close>. "read content; if changed vs cache,
  update cache": the result says whether the content differs from the cached readme.
\<close>

definition readmeChanged :: "readme \<Rightarrow> state \<Rightarrow> bool \<times> state" where
  "readmeChanged r s =
     (case readmeCache s of
        None \<Rightarrow> (True, s\<lparr>readmeCache := Some r\<rparr>)
      | Some old \<Rightarrow>
          if readme_content old \<noteq> readme_content r
          then (True, s\<lparr>readmeCache := Some r\<rparr>)
          else (False, s))"

text \<open>An object literal: a new object in the store, at the next free address.\<close>

definition alloc :: "elmFile \<Rightarrow> state \<Rightarrow> state" where
  "alloc f s = s\<lparr>heap := heap s @ [f]\<rparr>"

text \<open>\<open>elmFile.source = newSource; elmFile.ast = null\<close> on the object at an address.\<close>

definition mutate_source :: "nat \<Rightarrow> string \<Rightarrow> state \<Rightarrow> state" where
  "mutate_source a newSource s =
     s\<lparr>heap := (heap s)[a := (heap s ! a)\<lparr>source := newSource, ast := None\<rparr>]\<rparr>"

subsection \<open>watchFiles and watchConfiguration: installation\<close>

text \<open>The literal array passed as \<open>ignored\<close> to the source-file watcher, lines 156 to 161.\<close>

definition fileWatcher_ignored :: "string list" where
  "fileWatcher_ignored =
     [''node_modules'', ''elm-stuff'', ''.*'', ''**/ElmjutsuDumMyM0DuL3.elm'']"

text \<open>
  \<open>watchConfiguration\<close>, lines 298 to 336: no watcher (\<open>undefined\<close>) when
  \<open>reviewElmJsonPath\<close> is falsy (absent or the empty string) or \<open>watchConfig\<close> is off.
\<close>

definition watchConfiguration ::
  "externals \<Rightarrow> options \<Rightarrow> string list \<Rightarrow> string option \<Rightarrow> watcher option" where
  "watchConfiguration ext opts dirs rejPath =
     (case rejPath of
        None \<Rightarrow> None
      | Some p \<Rightarrow>
          if p = [] \<or> \<not> watchConfig opts then None
          else Some (chokidar_watch
                 (map (makePathOsAgnostic ext)
                    (map (\<lambda>directory. path_resolve ext (userSrc opts) directory @ ''/**/*.elm'')
                       dirs @ [p]))
                 []))"

text \<open>
  \<open>watchFiles\<close>, lines 31 to 289, up to the point where it returns: it registers the
  files it was given, installs the stdin listener unless the module-level flag is set,
  and creates the watchers. The callbacks \<open>rebuildAndRewatch\<close> and \<open>onError\<close> are
  seen through the effects \<open>RebuildAndRewatch\<close> and \<open>OnError\<close>.
\<close>

definition watchFiles :: "externals \<Rightarrow> options \<Rightarrow> watchOptions \<Rightarrow> state \<Rightarrow> state" where
  "watchFiles ext opts w s =
     (let addrs = [length (heap s) ..< length (heap s) + length (elmFiles w)];
          s = s\<lparr>heap := heap s @ elmFiles w\<rparr>;
          s = filesWereUpdated addrs s;
          s = (if \<not> isFlushingStdio s
               then s\<lparr>stdinReadableListeners := Suc (stdinReadableListeners s),
                      isFlushingStdio := True\<rparr>
               else s);
          G = \<lparr>g_options = opts,
               g_app = app w,
               elmJsonContent = elmJsonData_project w,
               runReview = CallRequestReview,
               suppressedErrorsTimeout = None,
               elmJsonWatcher =
                 chokidar_watch [makePathOsAgnostic ext (elmJsonPath opts)] [],
               readmeWatcher =
                 (case readmePath opts of
                    None \<Rightarrow> None
                  | Some rp \<Rightarrow> Some (chokidar_watch [makePathOsAgnostic ext rp] [])),
               fileWatcher =
                 chokidar_watch
                   (map (\<lambda>directory. makePathOsAgnostic ext (directory @ ''/**/*.elm''))
                      (sourceDirectories w))
                   fileWatcher_ignored,
               suppressedErrorsWatcher =
                 chokidar_watch
                   [makePathOsAgnostic ext (suppressedErrorsFolder opts @ ''/*.json'')] [],
               configurationWatcher =
                 watchConfiguration ext opts (reviewElmJson_source_directories w)
                   (reviewElmJsonPath w)\<rparr>
      in s\<lparr>gens := gens s @ [G]\<rparr>)"

subsection \<open>Closing watchers\<close>

text \<open>
  \<open>watcher.close()\<close>; for the two optional watchers \<open>watcher && watcher.close()\<close>.
\<close>

fun close_handle :: "nat \<Rightarrow> handle \<Rightarrow> state \<Rightarrow> state" where
  "close_handle g Manifest s =
     emit (WatcherClose g Manifest)
       (update_gen g (\<lambda>G. G\<lparr>elmJsonWatcher := close_watcher (elmJsonWatcher G)\<rparr>) s)"
| "close_handle g Readme s =
     (case readmeWatcher (gens s ! g) of
        None \<Rightarrow> s
      | Some w \<Rightarrow>
          emit (WatcherClose g Readme)
            (update_gen g (\<lambda>G. G\<lparr>readmeWatcher := Some (close_watcher w)\<rparr>) s))"
| "close_handle g SourceFiles s =
     emit (WatcherClose g SourceFiles)
       (update_gen g (\<lambda>G. G\<lparr>fileWatcher := close_watcher (fileWatcher G)\<rparr>) s)"
| "close_handle g SuppressionFolder s =
     emit (WatcherClose g SuppressionFolder)
       (update_gen g
          (\<lambda>G. G\<lparr>suppressedErrorsWatcher := close_watcher (suppressedErrorsWatcher G)\<rparr>) s)"
| "close_handle g ConfigurationFiles s =
     (case configurationWatcher (gens s ! g) of
        None \<Rightarrow> s
      | Some w \<Rightarrow>
          emit (WatcherClose g ConfigurationFiles)
            (update_gen g (\<lambda>G. G\<lparr>configurationWatcher := Some (close_watcher w)\<rparr>) s))"

definition close_handles :: "nat \<Rightarrow> handle list \<Rightarrow> state \<Rightarrow> state" where
  "close_handles g hs s = foldl (\<lambda>s h. close_handle g h s) s hs"

subsection \<open>The manifest watcher, lines 65 to 109\<close>

definition elmJsonWatcher_change :: "nat \<Rightarrow> state \<Rightarrow> state" where
  "elmJsonWatcher_change g s = suspend (ElmJsonRead g) s"

definition elmJsonWatcher_change_afterRead ::
  "externals \<Rightarrow> nat \<Rightarrow> json \<Rightarrow> state \<Rightarrow> state" where
  "elmJsonWatcher_change_afterRead ext g newValue s =
     (if JSON_stringify ext newValue \<noteq> JSON_stringify ext (elmJsonContent (gens s ! g))
      then
        let s = update_gen g (\<lambda>G. G\<lparr>elmJsonContent := newValue\<rparr>) s;
            s = update_gen g (\<lambda>G. G\<lparr>runReview := DoNothing\<rparr>) s;
            s = clearTimeout (suppressedErrorsTimeout (gens s ! g)) s;
            s = close_handles g
                  [Manifest, Readme, SourceFiles, SuppressionFolder, ConfigurationFiles] s
        in suspend (ElmJsonClosing g) s
      else s)"

definition elmJsonWatcher_change_afterClose :: "externals \<Rightarrow> nat \<Rightarrow> state \<Rightarrow> state" where
  "elmJsonWatcher_change_afterClose ext g s =
     (let opts = g_options (gens s ! g);
          s = (if report opts \<noteq> ''json''
               then
                 let s = (if \<not> debug opts then clearConsole ext s else s)
                 in emit (DebugLog ''Your `elm.json` has changed. Restarting elm-review.'') s
               else s)
      in emit (RebuildAndRewatch g) s)"

subsection \<open>The readme watcher, lines 111 to 144\<close>

definition readmeWatcher_add :: "nat \<Rightarrow> string \<Rightarrow> state \<Rightarrow> state" where
  "readmeWatcher_add g rp s =
     suspend (ReadmeAddRead g rp) (emit (DebugLog ''README.md has been added'') s)"

definition readmeWatcher_add_afterRead :: "nat \<Rightarrow> string \<Rightarrow> string \<Rightarrow> state \<Rightarrow> state" where
  "readmeWatcher_add_afterRead g rp content s =
     (let r = \<lparr>readme_path = rp, readme_content = content\<rparr>;
          s = snd (readmeChanged r s);
          s = emit (CollectReadme g r) s
      in call_runReview g s)"

definition readmeWatcher_change :: "nat \<Rightarrow> string \<Rightarrow> state \<Rightarrow> state" where
  "readmeWatcher_change g rp s = suspend (ReadmeChangeRead g rp) s"

definition readmeWatcher_change_afterRead ::
  "nat \<Rightarrow> string \<Rightarrow> string \<Rightarrow> state \<Rightarrow> state" where
  "readmeWatcher_change_afterRead g rp content s =
     (let r = \<lparr>readme_path = rp, readme_content = content\<rparr>;
          readmeHasChanged = fst (readmeChanged r s);
          s = snd (readmeChanged r s)
      in if readmeHasChanged
         then
           let s = emit (DebugLog ''README.md has been changed'') s;
               s = emit (CollectReadme g r) s
           in call_runReview g s
         else s)"

subsection \<open>The source-file watcher, lines 146 to 238\<close>

definition relativePath :: "externals \<Rightarrow> string \<Rightarrow> string" where
  "relativePath ext absolutePath =
     makePathOsAgnostic ext (path_relative ext (process_cwd ext) absolutePath)"

definition fileWatcher_add :: "externals \<Rightarrow> nat \<Rightarrow> string \<Rightarrow> state \<Rightarrow> state" where
  "fileWatcher_add ext g absolutePath s =
     (let rp = relativePath ext absolutePath;
          s = emit (DebugLog (''File '' @ anonymize_path ext (g_options (gens s ! g)) rp
                      @ '' has been added'')) s
      in case getFileFromMemoryCache rp s of
           Some a \<Rightarrow> suspend (FileAddRead g rp a False) s
         | None \<Rightarrow>
             suspend (FileAddRead g rp (length (heap s)) True)
               (alloc \<lparr>path = rp, source = [], ast = None\<rparr> s))"

definition fileWatcher_add_afterRead ::
  "nat \<Rightarrow> nat \<Rightarrow> bool \<Rightarrow> string \<Rightarrow> state \<Rightarrow> state" where
  "fileWatcher_add_afterRead g a isNewFile newSource s =
     (let s = (if source (heap s ! a) \<noteq> newSource then mutate_source a newSource s else s);
          s = (if isNewFile then filesWereUpdated [a] s else s);
          s = emit (CollectFile g a (heap s ! a)) s
      in call_runReview g s)"

definition fileWatcher_change :: "externals \<Rightarrow> nat \<Rightarrow> string \<Rightarrow> state \<Rightarrow> state" where
  "fileWatcher_change ext g absolutePath s =
     (let rp = relativePath ext absolutePath
      in case getFileFromMemoryCache rp s of
           Some a \<Rightarrow> suspend (FileChangeRead g rp a) s
         | None \<Rightarrow>
             suspend (FileChangeRead g rp (length (heap s)))
               (alloc \<lparr>path = rp, source = [], ast = None\<rparr> s))"

definition fileWatcher_change_afterRead ::
  "externals \<Rightarrow> nat \<Rightarrow> string \<Rightarrow> nat \<Rightarrow> string \<Rightarrow> state \<Rightarrow> state" where
  "fileWatcher_change_afterRead ext g rp a newSource s =
     (if source (heap s ! a) \<noteq> newSource
      then
        let s = emit (DebugLog (''File '' @ anonymize_path ext (g_options (gens s ! g)) rp
                        @ '' has been changed'')) s;
            s = mutate_source a newSource s;
            s = emit (CollectFile g a (heap s ! a)) s
        in call_runReview g s
      else s)"

definition fileWatcher_unlink :: "externals \<Rightarrow> nat \<Rightarrow> string \<Rightarrow> state \<Rightarrow> state" where
  "fileWatcher_unlink ext g absolutePath s =
     (let rp = relativePath ext absolutePath;
          s = emit (DebugLog (''File '' @ anonymize_path ext (g_options (gens s ! g)) rp
                      @ '' has been removed'')) s;
          s = emit (RemoveFile g rp) s
      in call_runReview g s)"

subsection \<open>The suppression-folder watcher, lines 240 to 269\<close>

definition updateSuppressedErrors :: "nat \<Rightarrow> state \<Rightarrow> state" where
  "updateSuppressedErrors g s =
     (let s = (case suppressedErrorsTimeout (gens s ! g) of
                 None \<Rightarrow> s
               | Some i \<Rightarrow> clearTimeout (Some i) s);
          i = nextTimerId s;
          s = setTimeout g 20 s
      in update_gen g (\<lambda>G. G\<lparr>suppressedErrorsTimeout := Some i\<rparr>) s)"

text \<open>The callback given to \<open>setTimeout\<close>: it calls the loader and awaits its result.\<close>

definition suppressedErrorsTimeout_fired :: "nat \<Rightarrow> state \<Rightarrow> state" where
  "suppressedErrorsTimeout_fired g s = suspend (SuppressedErrorsRead g) s"

definition suppressedErrorsTimeout_afterRead :: "nat \<Rightarrow> json \<Rightarrow> state \<Rightarrow> state" where
  "suppressedErrorsTimeout_afterRead g suppressedErrors s =
     (let s = emit (DebugLog ''Suppressed errors have been added'') s
      in emit (UpdateSuppressedErrors g suppressedErrors) s)"

subsection \<open>The configuration watcher, lines 271 to 288 and 317 to 333\<close>

definition configurationWatcher_change :: "nat \<Rightarrow> state \<Rightarrow> state" where
  "configurationWatcher_change g s =
     suspend (ConfigurationClosing g) (close_handle g ConfigurationFiles s)"

text \<open>The function \<open>watchFiles\<close> passes to \<open>watchConfiguration\<close> as \<open>rebuildAndRewatch\<close>.\<close>

definition restart_callback :: "nat \<Rightarrow> state \<Rightarrow> state" where
  "restart_callback g s =
     (let s = update_gen g (\<lambda>G. G\<lparr>runReview := DoNothing\<rparr>) s;
          s = clearTimeout (suppressedErrorsTimeout (gens s ! g)) s;
          s = close_handles g [Manifest, Readme, SourceFiles, SuppressionFolder] s
      in suspend (RestartClosing g) s)"

definition restart_callback_afterClose :: "nat \<Rightarrow> state \<Rightarrow> state" where
  "restart_callback_afterClose g s = emit (RebuildAndRewatch g) s"

definition configurationWatcher_change_afterClose ::
  "externals \<Rightarrow> nat \<Rightarrow> state \<Rightarrow> state" where
  "configurationWatcher_change_afterClose ext g s =
     (let opts = g_options (gens s ! g);
          s = (if report opts \<noteq> ''json''
               then
                 let s = (if \<not> debug opts then clearConsole ext s else s)
                 in emit (ConsoleLog
                      ''Your configuration has changed. Restarting elm-review with the new one.'') s
               else s)
      in restart_callback g s)"

subsection \<open>Events\<close>

text \<open>
  The listeners registered with \<open>.on\<close>: the manifest and the configuration watcher have
  a \<open>change\<close> listener only. An \<open>error\<close> event without a listener is thrown by the
  emitter.
\<close>

fun deliver :: "externals \<Rightarrow> nat \<Rightarrow> handle \<Rightarrow> kind \<Rightarrow> string \<Rightarrow> state \<Rightarrow> state" where
  "deliver ext g Manifest Change x s = elmJsonWatcher_change g s"
| "deliver ext g Manifest Error x s = emit (UnhandledError g Manifest x) s"
| "deliver ext g Readme Add x s =
     (case readmePath (g_options (gens s ! g)) of
        None \<Rightarrow> s
      | Some rp \<Rightarrow> readmeWatcher_add g rp s)"
| "deliver ext g Readme Change x s =
     (case readmePath (g_options (gens s ! g)) of
        None \<Rightarrow> s
      | Some rp \<Rightarrow> readmeWatcher_change g rp s)"
| "deliver ext g Readme Error x s = emit (OnError g x) s"
| "deliver ext g SourceFiles Add x s = fileWatcher_add ext g x s"
| "deliver ext g SourceFiles Change x s = fileWatcher_change ext g x s"
| "deliver ext g SourceFiles Unlink x s = fileWatcher_unlink ext g x s"
| "deliver ext g SourceFiles Error x s = emit (OnError g x) s"
| "deliver ext g SuppressionFolder Add x s = updateSuppressedErrors g s"
| "deliver ext g SuppressionFolder Change x s = updateSuppressedErrors g s"
| "deliver ext g SuppressionFolder Unlink x s = updateSuppressedErrors g s"
| "deliver ext g SuppressionFolder Error x s = emit (OnError g x) s"
| "deliver ext g ConfigurationFiles Change x s = configurationWatcher_change g s"
| "deliver ext g ConfigurationFiles Error x s = emit (UnhandledError g ConfigurationFiles x) s"
| "deliver ext g h k x s = s"

fun watcher_of :: "generation \<Rightarrow> handle \<Rightarrow> watcher option" where
  "watcher_of G Manifest = Some (elmJsonWatcher G)"
| "watcher_of G Readme = readmeWatcher G"
| "watcher_of G SourceFiles = Some (fileWatcher G)"
| "watcher_of G SuppressionFolder = Some (suppressedErrorsWatcher G)"
| "watcher_of G ConfigurationFiles = configurationWatcher G"

text \<open>
  The watch mechanism reports an event on a handle of generation \<open>g\<close>. A path that one
  of the handle's \<open>ignored\<close> patterns matches is not reported. The model does not assume
  that a handle falls silent once \<open>close()\<close> has been called.
\<close>

definition emit_event ::
  "externals \<Rightarrow> nat \<Rightarrow> handle \<Rightarrow> kind \<Rightarrow> string \<Rightarrow> state \<Rightarrow> state" where
  "emit_event ext g h k x s =
     (if g < length (gens s)
      then
        (case watcher_of (gens s ! g) h of
           None \<Rightarrow> s
         | Some w \<Rightarrow>
             if k \<noteq> Error \<and> list_ex (\<lambda>pattern. glob_matches ext pattern x) (w_ignored w) then s
             else deliver ext g h k x s)
      else s)"

text \<open>What a suspended handler does when the promise it awaits settles.\<close>

fun well_typed :: "task \<Rightarrow> settled \<Rightarrow> bool" where
  "well_typed t Rejected = True"
| "well_typed (ElmJsonRead g) (Fulfilled_json v) = True"
| "well_typed (ElmJsonClosing g) Fulfilled_unit = True"
| "well_typed (ReadmeAddRead g rp) (Fulfilled_string c) = True"
| "well_typed (ReadmeChangeRead g rp) (Fulfilled_string c) = True"
| "well_typed (FileAddRead g rp a n) (Fulfilled_string c) = True"
| "well_typed (FileChangeRead g rp a) (Fulfilled_string c) = True"
| "well_typed (SuppressedErrorsRead g) (Fulfilled_json v) = True"
| "well_typed (ConfigurationClosing g) Fulfilled_unit = True"
| "well_typed (RestartClosing g) Fulfilled_unit = True"
| "well_typed t r = False"

fun resume :: "externals \<Rightarrow> task \<Rightarrow> settled \<Rightarrow> state \<Rightarrow> state" where
  "resume ext t Rejected s = emit UnhandledRejection s"
| "resume ext (ElmJsonRead g) (Fulfilled_json v) s = elmJsonWatcher_change_afterRead ext g v s"
| "resume ext (ElmJsonClosing g) Fulfilled_unit s = elmJsonWatcher_change_afterClose ext g s"
| "resume ext (ReadmeAddRead g rp) (Fulfilled_string c) s = readmeWatcher_add_afterRead g rp c s"
| "resume ext (ReadmeChangeRead g rp) (Fulfilled_string c) s =
     readmeWatcher_change_afterRead g rp c s"
| "resume ext (FileAddRead g rp a n) (Fulfilled_string c) s = fileWatcher_add_afterRead g a n c s"
| "resume ext (FileChangeRead g rp a) (Fulfilled_string c) s =
     fileWatcher_change_afterRead ext g rp a c s"
| "resume ext (SuppressedErrorsRead g) (Fulfilled_json v) s =
     suppressedErrorsTimeout_afterRead g v s"
| "resume ext (ConfigurationClosing g) Fulfilled_unit s =
     configurationWatcher_change_afterClose ext g s"
| "resume ext (RestartClosing g) Fulfilled_unit s = restart_callback_afterClose g s"
| "resume ext t r s = s"

definition settle :: "externals \<Rightarrow> nat \<Rightarrow> settled \<Rightarrow> state \<Rightarrow> state" where
  "settle ext i r s =
     (if i < length (tasks s) \<and> well_typed (tasks s ! i) r
           \<and> task_gen (tasks s ! i) < length (gens s)
      then resume ext (tasks s ! i) r
             (s\<lparr>tasks := take i (tasks s) @ drop (Suc i) (tasks s)\<rparr>)
      else s)"

text \<open>
  Time passes: every timer that is due fires, in the order the timers were set (all
  timers of this module have the same delay, so this is the order in which they are due).
\<close>

definition elapse :: "nat \<Rightarrow> state \<Rightarrow> state" where
  "elapse d s =
     (let t = now s + d;
          due = filter (\<lambda>x. t_due x \<le> t) (timers s);
          s = s\<lparr>now := t, timers := filter (\<lambda>x. \<not> t_due x \<le> t) (timers s)\<rparr>
      in foldl (\<lambda>s x. suppressedErrorsTimeout_fired (t_gen x) s) s due)"

fun step :: "externals \<Rightarrow> event \<Rightarrow> state \<Rightarrow> state" where
  "step ext (CallWatchFiles opts w) s = watchFiles ext opts w s"
| "step ext (Emit g h k x) s = emit_event ext g h k x s"
| "step ext (Settle i r) s = settle ext i r s"
| "step ext (Elapse d) s = elapse d s"

definition run :: "externals \<Rightarrow> event list \<Rightarrow> state \<Rightarrow> state" where
  "run ext evs s = foldl (\<lambda>s e. step ext e s) s evs"

subsection \<open>An instance of the parameters, for the examples\<close>

fun commas :: "string list \<Rightarrow> string" where
  "commas [] = []"
| "commas [x] = x"
| "commas (x # y # zs) = x @ '','' @ commas (y # zs)"

function decimal :: "nat \<Rightarrow> string" where
  "decimal n =
     (if n < 10 then [''0123456789'' ! n]
      else decimal (n div 10) @ [''0123456789'' ! (n mod 10)])"
  by pat_completeness auto
termination
  by (relation "measure id") auto

declare decimal.simps [simp del]

definition quoted :: "string \<Rightarrow> string" where
  "quoted s = CHR 0x22 # s @ [CHR 0x22]"

text \<open>
  A serialiser in the manner of \<open>JSON.stringify\<close> (no escapes, integers only). It is
  used in the examples only: the theorems hold for every \<open>JSON_stringify\<close>.
\<close>

fun json_text :: "json \<Rightarrow> string" where
  "json_text JNull = ''null''"
| "json_text (JBool b) = (if b then ''true'' else ''false'')"
| "json_text (JNumber n) = (if n < 0 then ''-'' @ decimal (nat (- n)) else decimal (nat n))"
| "json_text (JString s) = quoted s"
| "json_text (JArray xs) = ''['' @ commas (map json_text xs) @ '']''"
| "json_text (JObject kvs) =
     ''{'' @ commas (map (\<lambda>kv. quoted (fst kv) @ '':'' @ json_text (snd kv)) kvs) @ ''}''"

fun segments :: "string \<Rightarrow> string list" where
  "segments [] = [[]]"
| "segments (c # cs) =
     (if c = CHR ''/'' then [] # segments cs
      else (case segments cs of
              [] \<Rightarrow> [[c]]
            | seg # rest \<Rightarrow> (c # seg) # rest))"

text \<open>
  A matcher after the one of the watch mechanism (chokidar hands the \<open>ignored\<close> patterns
  to a glob matcher, dot files included): a pattern is matched against the whole path,
  segment by segment; \<open>*\<close> stands for any characters within one segment and \<open>**\<close> for any
  number of segments.
\<close>

fun wild :: "string \<Rightarrow> string \<Rightarrow> bool" where
  "wild [] [] = True"
| "wild [] (c # cs) = False"
| "wild (p # ps) [] = (p = CHR ''*'' \<and> wild ps [])"
| "wild (p # ps) (c # cs) =
     (if p = CHR ''*'' then wild ps (c # cs) \<or> wild (p # ps) cs
      else p = c \<and> wild ps cs)"

fun globsegs :: "string list \<Rightarrow> string list \<Rightarrow> bool" where
  "globsegs [] [] = True"
| "globsegs [] (s # ss) = False"
| "globsegs (p # ps) [] = (p = ''**'' \<and> globsegs ps [])"
| "globsegs (p # ps) (s # ss) =
     (if p = ''**'' then globsegs ps (s # ss) \<or> globsegs (p # ps) ss
      else wild p s \<and> globsegs ps ss)"

definition is_glob :: "string \<Rightarrow> bool" where
  "is_glob pattern = list_ex (\<lambda>c. c \<in> set ''*?[{'') pattern"

text \<open>A pattern without glob characters also stands for everything below it.\<close>

definition picomatch :: "string \<Rightarrow> string list \<Rightarrow> bool" where
  "picomatch pattern segs \<longleftrightarrow>
     globsegs (segments pattern) segs
     \<or> \<not> is_glob pattern \<and> globsegs (segments pattern @ [''**'']) segs"

text \<open>
  The directories above a file and the file itself, as lists of segments: a file is not
  reported when a pattern matches its path or the path of a directory above it.
\<close>

fun ancestors :: "string list \<Rightarrow> string list list" where
  "ancestors [] = []"
| "ancestors (s # ss) = [s] # map ((#) s) (ancestors ss)"

definition chokidar_ignores :: "string \<Rightarrow> string \<Rightarrow> bool" where
  "chokidar_ignores pattern p = list_ex (picomatch pattern) (ancestors (segments p))"

text \<open>Paths are relative to the working directory already and use \<open>/\<close>.\<close>

definition example_ext :: externals where
  "example_ext =
     \<lparr>makePathOsAgnostic = (\<lambda>p. p),
      path_relative = (\<lambda>from to. to),
      path_resolve = (\<lambda>dir p. dir @ ''/'' @ p),
      process_cwd = ''/project'',
      process_platform = ''linux'',
      JSON_stringify = json_text,
      anonymize_path = (\<lambda>opts p. p),
      glob_matches = chokidar_ignores\<rparr>"

definition example_options :: options where
  "example_options =
     \<lparr>elmJsonPath = ''elm.json'', readmePath = Some ''README.md'', report = ''human'',
      debug = False, watchConfig = True, suppressedErrorsFolder = ''review/suppressed'',
      userSrc = ''review''\<rparr>"

definition example_watchOptions :: watchOptions where
  "example_watchOptions =
     \<lparr>app = 0,
      elmJsonData_project = JObject [(''type'', JString ''application'')],
      elmFiles = [\<lparr>path = ''src/A.elm'', source = ''module A'', ast = None\<rparr>],
      sourceDirectories = [''src''],
      reviewElmJson_source_directories = [''src''],
      reviewElmJsonPath = Some ''review/elm.json''\<rparr>"

text \<open>The process after its first call of \<open>watchFiles\<close>.\<close>

definition example_state :: state where
  "example_state = watchFiles example_ext example_options example_watchOptions initial"

subsection \<open>Notions and example states used in the properties\<close>

text \<open>
  Two generations that differ at most in the \<open>closed\<close> flags of their watchers: this is
  all that closing a handle changes.
\<close>

fun same_config :: "watcher option \<Rightarrow> watcher option \<Rightarrow> bool" where
  "same_config None None = True"
| "same_config (Some w) (Some w') = (w_paths w' = w_paths w \<and> w_ignored w' = w_ignored w)"
| "same_config None (Some w') = False"
| "same_config (Some w) None = False"

definition same_but_closed :: "generation \<Rightarrow> generation \<Rightarrow> bool" where
  "same_but_closed G G' \<longleftrightarrow>
     g_options G' = g_options G \<and> g_app G' = g_app G
     \<and> elmJsonContent G' = elmJsonContent G \<and> runReview G' = runReview G
     \<and> suppressedErrorsTimeout G' = suppressedErrorsTimeout G
     \<and> same_config (Some (elmJsonWatcher G)) (Some (elmJsonWatcher G'))
     \<and> same_config (readmeWatcher G) (readmeWatcher G')
     \<and> same_config (Some (fileWatcher G)) (Some (fileWatcher G'))
     \<and> same_config (Some (suppressedErrorsWatcher G)) (Some (suppressedErrorsWatcher G'))
     \<and> same_config (configurationWatcher G) (configurationWatcher G')"

text \<open>
  In the example process the manifest and then a configuration file change; both
  handlers are suspended.
\<close>

definition example_two_changes :: state where
  "example_two_changes =
     run example_ext [Emit 0 Manifest Change ''elm.json'',
                      Emit 0 ConfigurationFiles Change ''review/elm.json''] example_state"

text \<open>
  Since state \<open>s0\<close> the review of generation \<open>g\<close> has been disabled and none of its
  review requests has been forwarded.
\<close>

definition quiet :: "nat \<Rightarrow> state \<Rightarrow> state \<Rightarrow> bool" where
  "quiet g s0 s \<longleftrightarrow>
     g < length (gens s) \<and> runReview (gens s ! g) = DoNothing
     \<and> (\<exists>new. trace s = trace s0 @ new \<and> RequestReview g \<notin> set new)"

text \<open>
  Wherever \<open>close()\<close> has been called on a handle other than ConfigurationFiles, the
  generation's \<open>runReview\<close> is the function that does nothing.
\<close>

definition disabled_where_closed :: "state \<Rightarrow> bool" where
  "disabled_where_closed s \<longleftrightarrow>
     (\<forall>g h. WatcherClose g h \<in> set (trace s) \<longrightarrow>
        h = ConfigurationFiles \<or> g < length (gens s) \<and> runReview (gens s ! g) = DoNothing)"

text \<open>In the example process the manifest changes and the change is detected.\<close>

definition example_restarting :: state where
  "example_restarting =
     run example_ext
       [Emit 0 Manifest Change ''elm.json'',
        Settle 0 (Fulfilled_json (JObject [(''type'', JString ''package'')]))]
       example_state"

text \<open>
  The exclusion lists of the watchers are those given at installation, and every pending
  timer belongs to a generation that remembers it in \<open>suppressedErrorsTimeout\<close>.
\<close>

definition wellformed :: "state \<Rightarrow> bool" where
  "wellformed s \<longleftrightarrow>
     (\<forall>g < length (gens s).
        w_ignored (suppressedErrorsWatcher (gens s ! g)) = []
        \<and> w_ignored (fileWatcher (gens s ! g)) = fileWatcher_ignored)
     \<and> (\<forall>t \<in> set (timers s).
          t_gen t < length (gens s)
          \<and> suppressedErrorsTimeout (gens s ! t_gen t) = Some (t_id t))"

text \<open>The events that are calls of the entry point.\<close>

fun is_CallWatchFiles :: "event \<Rightarrow> bool" where
  "is_CallWatchFiles (CallWatchFiles opts w) = True"
| "is_CallWatchFiles (Emit g h k x) = False"
| "is_CallWatchFiles (Settle i r) = False"
| "is_CallWatchFiles (Elapse d) = False"

text \<open>
  One refresh of generation \<open>g\<close> is pending, set at the present moment: it is due after
  the full delay.
\<close>

definition armed :: "nat \<Rightarrow> state \<Rightarrow> bool" where
  "armed g s \<longleftrightarrow>
     wellformed s \<and> g < length (gens s)
     \<and> filter (\<lambda>t. t_gen t = g) (timers s)
         = [\<lparr>t_id = nextTimerId s - 1, t_due = now s + 20, t_gen = g\<rparr>]"

text \<open>
  The events of a burst after its first one: each comes some time after the one before.
\<close>

fun burst_events :: "nat \<Rightarrow> (nat \<times> kind \<times> string) list \<Rightarrow> event list" where
  "burst_events g [] = []"
| "burst_events g ((d, k, x) # rest) =
     Elapse d # Emit g SuppressionFolder k x # burst_events g rest"

text \<open>
  The scenario of the specification: three \<open>change\<close> events 5 ms apart, then silence.
\<close>

definition example_burst :: "event list" where
  "example_burst =
     Emit 0 SuppressionFolder Change ''review/suppressed/NoUnused.json''
     # burst_events 0 [(5, Change, ''review/suppressed/NoUnused.json''),
                       (5, Change, ''review/suppressed/NoUnused.json'')]"





text \<open>
  A new file is reported by \<open>add\<close> and by \<open>change\<close> before either handler has read it; then
  the \<open>add\<close> handler's read completes.
\<close>

definition example_add_change_race :: state where
  "example_add_change_race =
     run example_ext
       [Emit 0 SourceFiles Add ''src/B.elm'',
        Emit 0 SourceFiles Change ''src/B.elm'',
        Settle 0 (Fulfilled_string ''module B'')]
       example_state"

text \<open>
  A cached file changes twice; the read of the second \<open>change\<close> handler completes first.
\<close>

definition example_reordered_reads :: state where
  "example_reordered_reads =
     run example_ext
       [Emit 0 SourceFiles Change ''src/A.elm'',
        Emit 0 SourceFiles Change ''src/A.elm'',
        Settle 1 (Fulfilled_string ''module A exposing (a)'')]
       example_state"

section \<open>Properties\<close>

text \<open>The example matcher is evaluated wherever it meets a concrete path.\<close>

declare chokidar_ignores_def [simp] picomatch_def [simp] is_glob_def [simp]

subsection \<open>What the primitives change\<close>

lemma emit_sel [simp]:
  "trace (emit e s) = trace s @ [e]"
  "gens (emit e s) = gens s"
  "tasks (emit e s) = tasks s"
  "timers (emit e s) = timers s"
  "heap (emit e s) = heap s"
  "elmFilesCache (emit e s) = elmFilesCache s"
  "readmeCache (emit e s) = readmeCache s"
  "now (emit e s) = now s"
  "nextTimerId (emit e s) = nextTimerId s"
  "isFlushingStdio (emit e s) = isFlushingStdio s"
  "stdinReadableListeners (emit e s) = stdinReadableListeners s"
  by (simp_all add: emit_def)

lemma suspend_sel [simp]:
  "trace (suspend t s) = trace s"
  "gens (suspend t s) = gens s"
  "tasks (suspend t s) = tasks s @ [t]"
  "timers (suspend t s) = timers s"
  "heap (suspend t s) = heap s"
  "elmFilesCache (suspend t s) = elmFilesCache s"
  "readmeCache (suspend t s) = readmeCache s"
  "now (suspend t s) = now s"
  "nextTimerId (suspend t s) = nextTimerId s"
  "isFlushingStdio (suspend t s) = isFlushingStdio s"
  "stdinReadableListeners (suspend t s) = stdinReadableListeners s"
  by (simp_all add: suspend_def)

lemma update_gen_sel [simp]:
  "trace (update_gen g f s) = trace s"
  "gens (update_gen g f s) = (gens s)[g := f (gens s ! g)]"
  "tasks (update_gen g f s) = tasks s"
  "timers (update_gen g f s) = timers s"
  "heap (update_gen g f s) = heap s"
  "elmFilesCache (update_gen g f s) = elmFilesCache s"
  "readmeCache (update_gen g f s) = readmeCache s"
  "now (update_gen g f s) = now s"
  "nextTimerId (update_gen g f s) = nextTimerId s"
  "isFlushingStdio (update_gen g f s) = isFlushingStdio s"
  "stdinReadableListeners (update_gen g f s) = stdinReadableListeners s"
  by (simp_all add: update_gen_def)

lemma setTimeout_sel [simp]:
  "trace (setTimeout g d s) = trace s"
  "gens (setTimeout g d s) = gens s"
  "tasks (setTimeout g d s) = tasks s"
  "timers (setTimeout g d s) =
     timers s @ [\<lparr>t_id = nextTimerId s, t_due = now s + d, t_gen = g\<rparr>]"
  "heap (setTimeout g d s) = heap s"
  "elmFilesCache (setTimeout g d s) = elmFilesCache s"
  "readmeCache (setTimeout g d s) = readmeCache s"
  "now (setTimeout g d s) = now s"
  "nextTimerId (setTimeout g d s) = Suc (nextTimerId s)"
  "isFlushingStdio (setTimeout g d s) = isFlushingStdio s"
  "stdinReadableListeners (setTimeout g d s) = stdinReadableListeners s"
  by (simp_all add: setTimeout_def)

lemma clearTimeout_sel [simp]:
  "trace (clearTimeout i s) = trace s"
  "gens (clearTimeout i s) = gens s"
  "tasks (clearTimeout i s) = tasks s"
  "heap (clearTimeout i s) = heap s"
  "elmFilesCache (clearTimeout i s) = elmFilesCache s"
  "readmeCache (clearTimeout i s) = readmeCache s"
  "now (clearTimeout i s) = now s"
  "nextTimerId (clearTimeout i s) = nextTimerId s"
  "isFlushingStdio (clearTimeout i s) = isFlushingStdio s"
  "stdinReadableListeners (clearTimeout i s) = stdinReadableListeners s"
  by (simp_all add: clearTimeout_def split: option.split)

lemma clearTimeout_timers [simp]:
  "timers (clearTimeout None s) = timers s"
  "timers (clearTimeout (Some i) s) = filter (\<lambda>t. t_id t \<noteq> i) (timers s)"
  by (simp_all add: clearTimeout_def)

lemma alloc_sel [simp]:
  "trace (alloc f s) = trace s"
  "gens (alloc f s) = gens s"
  "tasks (alloc f s) = tasks s"
  "timers (alloc f s) = timers s"
  "heap (alloc f s) = heap s @ [f]"
  "elmFilesCache (alloc f s) = elmFilesCache s"
  "readmeCache (alloc f s) = readmeCache s"
  "now (alloc f s) = now s"
  "nextTimerId (alloc f s) = nextTimerId s"
  "isFlushingStdio (alloc f s) = isFlushingStdio s"
  "stdinReadableListeners (alloc f s) = stdinReadableListeners s"
  by (simp_all add: alloc_def)

lemma mutate_source_sel [simp]:
  "trace (mutate_source a c s) = trace s"
  "gens (mutate_source a c s) = gens s"
  "tasks (mutate_source a c s) = tasks s"
  "timers (mutate_source a c s) = timers s"
  "heap (mutate_source a c s) = (heap s)[a := (heap s ! a)\<lparr>source := c, ast := None\<rparr>]"
  "elmFilesCache (mutate_source a c s) = elmFilesCache s"
  "readmeCache (mutate_source a c s) = readmeCache s"
  "now (mutate_source a c s) = now s"
  "nextTimerId (mutate_source a c s) = nextTimerId s"
  "isFlushingStdio (mutate_source a c s) = isFlushingStdio s"
  "stdinReadableListeners (mutate_source a c s) = stdinReadableListeners s"
  by (simp_all add: mutate_source_def)

lemma filesWereUpdated_sel [simp]:
  "trace (filesWereUpdated as s) = trace s"
  "gens (filesWereUpdated as s) = gens s"
  "tasks (filesWereUpdated as s) = tasks s"
  "timers (filesWereUpdated as s) = timers s"
  "heap (filesWereUpdated as s) = heap s"
  "readmeCache (filesWereUpdated as s) = readmeCache s"
  "now (filesWereUpdated as s) = now s"
  "nextTimerId (filesWereUpdated as s) = nextTimerId s"
  "isFlushingStdio (filesWereUpdated as s) = isFlushingStdio s"
  "stdinReadableListeners (filesWereUpdated as s) = stdinReadableListeners s"
  unfolding filesWereUpdated_def by (induction as arbitrary: s; simp)+

lemma filesWereUpdated_single [simp]:
  "elmFilesCache (filesWereUpdated [a] s) = (elmFilesCache s)(path (heap s ! a) \<mapsto> a)"
  by (simp add: filesWereUpdated_def)

lemma readmeChanged_sel [simp]:
  "trace (snd (readmeChanged r s)) = trace s"
  "gens (snd (readmeChanged r s)) = gens s"
  "tasks (snd (readmeChanged r s)) = tasks s"
  "timers (snd (readmeChanged r s)) = timers s"
  "heap (snd (readmeChanged r s)) = heap s"
  "elmFilesCache (snd (readmeChanged r s)) = elmFilesCache s"
  "now (snd (readmeChanged r s)) = now s"
  "nextTimerId (snd (readmeChanged r s)) = nextTimerId s"
  "isFlushingStdio (snd (readmeChanged r s)) = isFlushingStdio s"
  "stdinReadableListeners (snd (readmeChanged r s)) = stdinReadableListeners s"
  by (simp_all add: readmeChanged_def split: option.split)

lemma clearConsole_sel [simp]:
  "trace (clearConsole ext s) = trace s @ [StdoutWrite (clearConsole_sequence ext)]"
  "gens (clearConsole ext s) = gens s"
  "tasks (clearConsole ext s) = tasks s"
  "timers (clearConsole ext s) = timers s"
  "heap (clearConsole ext s) = heap s"
  "elmFilesCache (clearConsole ext s) = elmFilesCache s"
  "readmeCache (clearConsole ext s) = readmeCache s"
  "now (clearConsole ext s) = now s"
  "nextTimerId (clearConsole ext s) = nextTimerId s"
  "isFlushingStdio (clearConsole ext s) = isFlushingStdio s"
  "stdinReadableListeners (clearConsole ext s) = stdinReadableListeners s"
  by (simp_all add: clearConsole_def)

lemma call_runReview_sel [simp]:
  "trace (call_runReview g s) =
     trace s @ (if runReview (gens s ! g) = CallRequestReview then [RequestReview g] else [])"
  "gens (call_runReview g s) = gens s"
  "tasks (call_runReview g s) = tasks s"
  "timers (call_runReview g s) = timers s"
  "heap (call_runReview g s) = heap s"
  "elmFilesCache (call_runReview g s) = elmFilesCache s"
  "readmeCache (call_runReview g s) = readmeCache s"
  "now (call_runReview g s) = now s"
  "nextTimerId (call_runReview g s) = nextTimerId s"
  "isFlushingStdio (call_runReview g s) = isFlushingStdio s"
  "stdinReadableListeners (call_runReview g s) = stdinReadableListeners s"
  by (simp_all add: call_runReview_def split: runReviewFn.split)

text \<open>A handler that is resumed at once, before any other event.\<close>

lemma settle_suspended:
  "well_typed t r \<Longrightarrow> task_gen t < length (gens s) \<Longrightarrow>
   settle ext (length (tasks s)) r (suspend t s) = resume ext t r s"
  by (simp add: settle_def suspend_def)

lemma settle_beyond [simp]: "settle ext (length (tasks s)) r s = s"
  by (simp add: settle_def)

lemma run_Nil [simp]: "run ext [] s = s"
  by (simp add: run_def)

lemma run_Cons [simp]: "run ext (e # evs) s = run ext evs (step ext e s)"
  by (simp add: run_def)

lemma run_append: "run ext (evs @ evs') s = run ext evs' (run ext evs s)"
  by (simp add: run_def)

lemma example_state_eq:
  "example_state =
     \<lparr>isFlushingStdio = True, stdinReadableListeners = 1,
      heap = [\<lparr>path = ''src/A.elm'', source = ''module A'', ast = None\<rparr>],
      elmFilesCache = [''src/A.elm'' \<mapsto> 0], readmeCache = None,
      gens =
        [\<lparr>g_options = example_options,
          g_app = 0,
          elmJsonContent = JObject [(''type'', JString ''application'')],
          runReview = CallRequestReview, suppressedErrorsTimeout = None,
          elmJsonWatcher = chokidar_watch [''elm.json''] [],
          readmeWatcher = Some (chokidar_watch [''README.md''] []),
          fileWatcher = chokidar_watch [''src/**/*.elm''] fileWatcher_ignored,
          suppressedErrorsWatcher = chokidar_watch [''review/suppressed/*.json''] [],
          configurationWatcher =
            Some (chokidar_watch [''review/src/**/*.elm'', ''review/elm.json''] [])\<rparr>],
      tasks = [], timers = [], now = 0, nextTimerId = 1, trace = []\<rparr>"
  by (simp add: example_state_def watchFiles_def initial_def example_ext_def
      example_options_def example_watchOptions_def filesWereUpdated_def
      watchConfiguration_def Let_def)

subsection \<open>Source files whose content has not changed\<close>

text \<open>
  C3, as the code has it. A \<open>change\<close> event on a cached source file looks the cached
  record up and reads the file. When the read completes, the content read is compared
  with the source that this record holds at that moment: if they are equal nothing is
  sent, no review is requested and nothing changes; if they differ the record is
  overwritten and sent and \<open>runReview\<close> is called. No file metadata enters the decision.
  Handled without interruption, an event whose content equals the content cached for the
  path therefore leaves the whole state as it was. A handler that resumes after other
  handlers have run decides in the same way, on the record it holds (the one it looked
  up, or its own fresh record when the path was not cached) as that record then stands.
\<close>

theorem change_event_decided_by_content:
  assumes "g < length (gens s)"
    and "\<not> list_ex (\<lambda>pattern. glob_matches ext pattern x) (w_ignored (fileWatcher (gens s ! g)))"
    and "getFileFromMemoryCache (relativePath ext x) s = Some a"
    and "a < length (heap s)"
  shows "step ext (Emit g SourceFiles Change x) s
           = suspend (FileChangeRead g (relativePath ext x) a) s
       \<and> run ext [Emit g SourceFiles Change x,
                   Settle (length (tasks s)) (Fulfilled_string newSource)] s
           = (if source (heap s ! a) = newSource then s
              else s\<lparr>heap := (heap s)[a := (heap s ! a)\<lparr>source := newSource, ast := None\<rparr>],
                     trace := trace s
                       @ [DebugLog (''File '' @ anonymize_path ext (g_options (gens s ! g))
                                     (relativePath ext x) @ '' has been changed''),
                          CollectFile g a ((heap s ! a)\<lparr>source := newSource, ast := None\<rparr>)]
                       @ (if runReview (gens s ! g) = CallRequestReview
                          then [RequestReview g] else [])\<rparr>)
       \<and> (i < length (tasks s') \<and> tasks s' ! i = FileChangeRead g' rp a'
            \<and> g' < length (gens s') \<and> a' < length (heap s')
          \<longrightarrow> step ext (Settle i (Fulfilled_string c)) s'
              = (if source (heap s' ! a') = c
                 then s'\<lparr>tasks := take i (tasks s') @ drop (Suc i) (tasks s')\<rparr>
                 else s'\<lparr>tasks := take i (tasks s') @ drop (Suc i) (tasks s'),
                         heap := (heap s')[a' := (heap s' ! a')\<lparr>source := c, ast := None\<rparr>],
                         trace := trace s'
                           @ [DebugLog (''File '' @ anonymize_path ext (g_options (gens s' ! g'))
                                         rp @ '' has been changed''),
                              CollectFile g' a' ((heap s' ! a')\<lparr>source := c, ast := None\<rparr>)]
                           @ (if runReview (gens s' ! g') = CallRequestReview
                              then [RequestReview g'] else [])\<rparr>))"
proof (intro conjI impI)
  let ?t = "FileChangeRead g (relativePath ext x) a"
  show start: "step ext (Emit g SourceFiles Change x) s = suspend ?t s"
    using assms(1,2,3) by (simp add: emit_event_def fileWatcher_change_def Let_def)
  have "settle ext (length (tasks s)) (Fulfilled_string newSource) (suspend ?t s)
      = fileWatcher_change_afterRead ext g (relativePath ext x) a newSource s"
    using assms(1) settle_suspended [of ?t "Fulfilled_string newSource" s ext] by simp
  then show "run ext [Emit g SourceFiles Change x,
        Settle (length (tasks s)) (Fulfilled_string newSource)] s
      = (if source (heap s ! a) = newSource then s
         else s\<lparr>heap := (heap s)[a := (heap s ! a)\<lparr>source := newSource, ast := None\<rparr>],
                trace := trace s
                  @ [DebugLog (''File '' @ anonymize_path ext (g_options (gens s ! g))
                                (relativePath ext x) @ '' has been changed''),
                     CollectFile g a ((heap s ! a)\<lparr>source := newSource, ast := None\<rparr>)]
                  @ (if runReview (gens s ! g) = CallRequestReview
                     then [RequestReview g] else [])\<rparr>)"
    using start assms(4)
    by (simp add: fileWatcher_change_afterRead_def Let_def emit_def mutate_source_def
        call_runReview_def split: runReviewFn.split)
next
  assume a: "i < length (tasks s') \<and> tasks s' ! i = FileChangeRead g' rp a'
    \<and> g' < length (gens s') \<and> a' < length (heap s')"
  then show "step ext (Settle i (Fulfilled_string c)) s'
      = (if source (heap s' ! a') = c
         then s'\<lparr>tasks := take i (tasks s') @ drop (Suc i) (tasks s')\<rparr>
         else s'\<lparr>tasks := take i (tasks s') @ drop (Suc i) (tasks s'),
                 heap := (heap s')[a' := (heap s' ! a')\<lparr>source := c, ast := None\<rparr>],
                 trace := trace s'
                   @ [DebugLog (''File '' @ anonymize_path ext (g_options (gens s' ! g'))
                                 rp @ '' has been changed''),
                      CollectFile g' a' ((heap s' ! a')\<lparr>source := c, ast := None\<rparr>)]
                   @ (if runReview (gens s' ! g') = CallRequestReview
                      then [RequestReview g'] else [])\<rparr>)"
    by (simp add: settle_def fileWatcher_change_afterRead_def Let_def emit_def
        mutate_source_def call_runReview_def split: runReviewFn.split)
qed

lemma example_reordered_reads_sel:
  "tasks example_reordered_reads = [FileChangeRead 0 ''src/A.elm'' 0]"
  "heap example_reordered_reads
     = [\<lparr>path = ''src/A.elm'', source = ''module A exposing (a)'', ast = None\<rparr>]"
  "length (gens example_reordered_reads) = 1"
  "runReview (gens example_reordered_reads ! 0) = CallRequestReview"
  "g_options (gens example_reordered_reads ! 0) = example_options"
  "elmFilesCache example_reordered_reads ''src/A.elm'' = Some 0"
  "trace example_reordered_reads
     = [DebugLog ''File src/A.elm has been changed'',
        CollectFile 0 0 \<lparr>path = ''src/A.elm'', source = ''module A exposing (a)'', ast = None\<rparr>,
        RequestReview 0]"
  by (simp_all add: example_reordered_reads_def example_state_eq emit_event_def
      chokidar_watch_def fileWatcher_ignored_def fileWatcher_change_def relativePath_def
      getFileFromMemoryCache_def settle_def fileWatcher_change_afterRead_def Let_def
      example_ext_def)

theorem change_event_decided_by_content_witness:
  "0 < length (gens example_state)
   \<and> \<not> list_ex (\<lambda>pattern. glob_matches example_ext pattern ''src/A.elm'')
        (w_ignored (fileWatcher (gens example_state ! 0)))
   \<and> getFileFromMemoryCache (relativePath example_ext ''src/A.elm'') example_state = Some 0
   \<and> 0 < length (heap example_state)
   \<and> run example_ext [Emit 0 SourceFiles Change ''src/A.elm'',
         Settle (length (tasks example_state)) (Fulfilled_string ''module A'')] example_state
       = example_state
   \<and> trace (run example_ext [Emit 0 SourceFiles Change ''src/A.elm'',
         Settle (length (tasks example_state)) (Fulfilled_string ''module A exposing (a)'')]
         example_state)
       = [DebugLog ''File src/A.elm has been changed'',
          CollectFile 0 0 \<lparr>path = ''src/A.elm'', source = ''module A exposing (a)'', ast = None\<rparr>,
          RequestReview 0]
   \<and> 0 < length (tasks example_reordered_reads)
   \<and> tasks example_reordered_reads ! 0 = FileChangeRead 0 ''src/A.elm'' 0
   \<and> 0 < length (gens example_reordered_reads) \<and> 0 < length (heap example_reordered_reads)
   \<and> trace (step example_ext (Settle 0 (Fulfilled_string ''module A exposing (a)''))
        example_reordered_reads) = trace example_reordered_reads"
proof -
  have h1: "0 < length (gens example_state)"
    by (simp add: example_state_eq)
  have h2: "\<not> list_ex (\<lambda>pattern. glob_matches example_ext pattern ''src/A.elm'')
      (w_ignored (fileWatcher (gens example_state ! 0)))"
    by (simp add: example_state_eq example_ext_def chokidar_watch_def fileWatcher_ignored_def)
  have h3: "getFileFromMemoryCache (relativePath example_ext ''src/A.elm'') example_state
      = Some 0"
    by (simp add: example_state_eq getFileFromMemoryCache_def relativePath_def example_ext_def)
  have h4: "0 < length (heap example_state)"
    by (simp add: example_state_eq)
  have h5: "0 < length (tasks example_reordered_reads)"
    "tasks example_reordered_reads ! 0 = FileChangeRead 0 ''src/A.elm'' 0"
    "0 < length (gens example_reordered_reads)" "0 < length (heap example_reordered_reads)"
    by (simp_all add: example_reordered_reads_sel)
  have e: "source (heap example_state ! 0) = ''module A''"
    "(heap example_state ! 0)\<lparr>source := ''module A exposing (a)'', ast := None\<rparr>
       = \<lparr>path = ''src/A.elm'', source = ''module A exposing (a)'', ast = None\<rparr>"
    "relativePath example_ext ''src/A.elm'' = ''src/A.elm''"
    "anonymize_path example_ext (g_options (gens example_state ! 0)) ''src/A.elm''
       = ''src/A.elm''"
    "runReview (gens example_state ! 0) = CallRequestReview"
    "trace example_state = []"
    "source (heap example_reordered_reads ! 0) = ''module A exposing (a)''"
    by (simp_all add: example_state_eq example_reordered_reads_sel relativePath_def
        example_ext_def)
  note T = change_event_decided_by_content [OF h1 h2 h3 h4,
      where s' = example_reordered_reads and i = 0 and g' = 0 and rp = "''src/A.elm''"
        and a' = 0 and c = "''module A exposing (a)''"]
  from T [where newSource = "''module A''"]
  have t1: "run example_ext [Emit 0 SourceFiles Change ''src/A.elm'',
      Settle (length (tasks example_state)) (Fulfilled_string ''module A'')] example_state
      = example_state"
    by (elim conjE) (simp add: e)
  from T [where newSource = "''module A exposing (a)''"]
  have t2: "trace (run example_ext [Emit 0 SourceFiles Change ''src/A.elm'',
      Settle (length (tasks example_state)) (Fulfilled_string ''module A exposing (a)'')]
      example_state)
      = [DebugLog ''File src/A.elm has been changed'',
         CollectFile 0 0 \<lparr>path = ''src/A.elm'', source = ''module A exposing (a)'', ast = None\<rparr>,
         RequestReview 0]"
    by (elim conjE) (simp add: e)
  from T [where newSource = "''module A''"] h5
  have "step example_ext (Settle 0 (Fulfilled_string ''module A exposing (a)''))
      example_reordered_reads
      = (if source (heap example_reordered_reads ! 0) = ''module A exposing (a)''
         then example_reordered_reads
           \<lparr>tasks := take 0 (tasks example_reordered_reads)
              @ drop (Suc 0) (tasks example_reordered_reads)\<rparr>
         else example_reordered_reads
           \<lparr>tasks := take 0 (tasks example_reordered_reads)
              @ drop (Suc 0) (tasks example_reordered_reads),
            heap := (heap example_reordered_reads)
              [0 := (heap example_reordered_reads ! 0)
                 \<lparr>source := ''module A exposing (a)'', ast := None\<rparr>],
            trace := trace example_reordered_reads
              @ [DebugLog (''File '' @ anonymize_path example_ext
                   (g_options (gens example_reordered_reads ! 0)) ''src/A.elm''
                   @ '' has been changed''),
                 CollectFile 0 0 ((heap example_reordered_reads ! 0)
                   \<lparr>source := ''module A exposing (a)'', ast := None\<rparr>)]
              @ (if runReview (gens example_reordered_reads ! 0) = CallRequestReview
                 then [RequestReview 0] else [])\<rparr>)"
    by blast
  then have t3: "trace (step example_ext (Settle 0 (Fulfilled_string ''module A exposing (a)''))
      example_reordered_reads) = trace example_reordered_reads"
    by (simp add: e)
  show ?thesis
    using h1 h2 h3 h4 t1 t2 h5 t3 by blast
qed

text \<open>
  C3 as stated fails when handlers interleave. A new file is reported by \<open>add\<close> and by
  \<open>change\<close>; once the \<open>add\<close> handler has cached it, the \<open>change\<close> handler reads the very
  content that is cached for the path, and still sends the file and requests a review,
  because it compares with its own fresh record. And a \<open>change\<close> handler whose read
  completes late with the content that was cached when its event arrived sends the file
  and requests a review, because another handler has overwritten the record since.
\<close>

lemma example_add_change_race_sel:
  "tasks example_add_change_race = [FileChangeRead 0 ''src/B.elm'' 2]"
  "heap example_add_change_race
     = [\<lparr>path = ''src/A.elm'', source = ''module A'', ast = None\<rparr>,
        \<lparr>path = ''src/B.elm'', source = ''module B'', ast = None\<rparr>,
        \<lparr>path = ''src/B.elm'', source = [], ast = None\<rparr>]"
  "elmFilesCache example_add_change_race ''src/B.elm'' = Some 1"
  "trace example_add_change_race
     = [DebugLog ''File src/B.elm has been added'',
        CollectFile 0 1 \<lparr>path = ''src/B.elm'', source = ''module B'', ast = None\<rparr>,
        RequestReview 0]"
  by (simp_all add: example_add_change_race_def example_state_eq emit_event_def
      chokidar_watch_def fileWatcher_ignored_def fileWatcher_add_def fileWatcher_change_def
      relativePath_def getFileFromMemoryCache_def settle_def fileWatcher_add_afterRead_def
      Let_def example_ext_def alloc_def suspend_def emit_def mutate_source_def
      filesWereUpdated_def call_runReview_def)

theorem change_notifies_although_content_is_cached:
  "getFileFromMemoryCache ''src/B.elm'' example_add_change_race = Some 1
   \<and> source (heap example_add_change_race ! 1) = ''module B''
   \<and> trace (step example_ext (Settle 0 (Fulfilled_string ''module B''))
        example_add_change_race)
       = trace example_add_change_race
         @ [DebugLog ''File src/B.elm has been changed'',
            CollectFile 0 2 \<lparr>path = ''src/B.elm'', source = ''module B'', ast = None\<rparr>,
            RequestReview 0]
   \<and> getFileFromMemoryCache ''src/A.elm'' example_state = Some 0
   \<and> source (heap example_state ! 0) = ''module A''
   \<and> trace (step example_ext (Settle 0 (Fulfilled_string ''module A''))
        example_reordered_reads)
       = trace example_reordered_reads
         @ [DebugLog ''File src/A.elm has been changed'',
            CollectFile 0 0 \<lparr>path = ''src/A.elm'', source = ''module A'', ast = None\<rparr>,
            RequestReview 0]"
proof -
  have 1: "getFileFromMemoryCache ''src/B.elm'' example_add_change_race = Some 1"
    "source (heap example_add_change_race ! 1) = ''module B''"
    by (simp_all add: getFileFromMemoryCache_def example_add_change_race_sel)
  have 2: "trace (step example_ext (Settle 0 (Fulfilled_string ''module B''))
        example_add_change_race)
      = trace example_add_change_race
        @ [DebugLog ''File src/B.elm has been changed'',
           CollectFile 0 2 \<lparr>path = ''src/B.elm'', source = ''module B'', ast = None\<rparr>,
           RequestReview 0]"
    by (simp add: settle_def example_add_change_race_sel fileWatcher_change_afterRead_def
        Let_def, simp add: example_add_change_race_def example_state_eq emit_event_def
        chokidar_watch_def fileWatcher_ignored_def fileWatcher_add_def fileWatcher_change_def
        relativePath_def getFileFromMemoryCache_def settle_def fileWatcher_add_afterRead_def
        Let_def example_ext_def example_options_def)
  have 3: "getFileFromMemoryCache ''src/A.elm'' example_state = Some 0"
    "source (heap example_state ! 0) = ''module A''"
    by (simp_all add: getFileFromMemoryCache_def example_state_eq)
  have 4: "trace (step example_ext (Settle 0 (Fulfilled_string ''module A''))
        example_reordered_reads)
      = trace example_reordered_reads
        @ [DebugLog ''File src/A.elm has been changed'',
           CollectFile 0 0 \<lparr>path = ''src/A.elm'', source = ''module A'', ast = None\<rparr>,
           RequestReview 0]"
    by (simp add: settle_def example_reordered_reads_sel fileWatcher_change_afterRead_def
        Let_def example_ext_def)
  show ?thesis
    using 1 2 3 4 by blast
qed

subsection \<open>Errors of the watch mechanism\<close>

text \<open>
  C4, evaluated. An \<open>error\<close> event on the source-file watcher reaches \<open>onError\<close>. The
  manifest watcher and the configuration watcher register no \<open>error\<close> listener: an
  \<open>error\<close> event on either is thrown by the emitter and \<open>onError\<close> is not called.
\<close>

theorem error_on_manifest_or_configuration_not_forwarded:
  "trace (step example_ext (Emit 0 Manifest Error ''EMFILE'') example_state)
     = [UnhandledError 0 Manifest ''EMFILE'']
   \<and> trace (step example_ext (Emit 0 ConfigurationFiles Error ''EMFILE'') example_state)
     = [UnhandledError 0 ConfigurationFiles ''EMFILE'']
   \<and> trace (step example_ext (Emit 0 SourceFiles Error ''EMFILE'') example_state)
     = [OnError 0 ''EMFILE'']"
  by (simp add: example_state_eq emit_event_def chokidar_watch_def)

subsection \<open>Source files that the cache does not know\<close>

lemma change_on_unknown_path:
  assumes "g < length (gens s)"
    and "\<not> list_ex (\<lambda>pattern. glob_matches ext pattern x) (w_ignored (fileWatcher (gens s ! g)))"
    and "getFileFromMemoryCache (relativePath ext x) s = None"
    and "newSource \<noteq> []"
  shows "run ext [Emit g SourceFiles Change x,
            Settle (length (tasks s)) (Fulfilled_string newSource)] s
         = s\<lparr>heap := heap s @ [\<lparr>path = relativePath ext x, source = newSource, ast = None\<rparr>],
             trace := trace s @
               [DebugLog (''File '' @ anonymize_path ext (g_options (gens s ! g))
                            (relativePath ext x) @ '' has been changed''),
                CollectFile g (length (heap s))
                  \<lparr>path = relativePath ext x, source = newSource, ast = None\<rparr>]
               @ (if runReview (gens s ! g) = CallRequestReview then [RequestReview g]
                  else [])\<rparr>"
proof -
  let ?t = "FileChangeRead g (relativePath ext x) (length (heap s))"
  let ?s1 = "alloc \<lparr>path = relativePath ext x, source = [], ast = None\<rparr> s"
  have start: "step ext (Emit g SourceFiles Change x) s = suspend ?t ?s1"
    using assms by (simp add: emit_event_def fileWatcher_change_def Let_def)
  have "settle ext (length (tasks s)) (Fulfilled_string newSource) (suspend ?t ?s1)
      = resume ext ?t (Fulfilled_string newSource) ?s1"
    using assms(1) settle_suspended [of ?t "Fulfilled_string newSource" ?s1 ext] by simp
  moreover have "resume ext ?t (Fulfilled_string newSource) ?s1
      = s\<lparr>heap := heap s @ [\<lparr>path = relativePath ext x, source = newSource, ast = None\<rparr>],
          trace := trace s @
            [DebugLog (''File '' @ anonymize_path ext (g_options (gens s ! g))
                         (relativePath ext x) @ '' has been changed''),
             CollectFile g (length (heap s))
               \<lparr>path = relativePath ext x, source = newSource, ast = None\<rparr>]
            @ (if runReview (gens s ! g) = CallRequestReview then [RequestReview g]
               else [])\<rparr>"
    using assms(4)
    by (simp add: fileWatcher_change_afterRead_def Let_def alloc_def emit_def
        mutate_source_def call_runReview_def split: runReviewFn.split)
  ultimately show ?thesis using start by simp
qed

lemma change_on_unknown_path_repeated:
  assumes "g < length (gens s)"
    and "\<not> list_ex (\<lambda>pattern. glob_matches ext pattern x) (w_ignored (fileWatcher (gens s ! g)))"
    and "getFileFromMemoryCache (relativePath ext x) s = None"
    and "\<forall>c \<in> set cs. c \<noteq> []"
  shows "let s' = run ext (concat (map (\<lambda>c. [Emit g SourceFiles Change x,
                      Settle (length (tasks s)) (Fulfilled_string c)]) cs)) s
         in elmFilesCache s' = elmFilesCache s
          \<and> heap s' = heap s @ map (\<lambda>c. \<lparr>path = relativePath ext x, source = c, ast = None\<rparr>) cs
          \<and> trace s' = trace s @ concat (map (\<lambda>(a, c).
                [DebugLog (''File '' @ anonymize_path ext (g_options (gens s ! g))
                             (relativePath ext x) @ '' has been changed''),
                 CollectFile g a \<lparr>path = relativePath ext x, source = c, ast = None\<rparr>]
                @ (if runReview (gens s ! g) = CallRequestReview then [RequestReview g]
                   else []))
              (zip [length (heap s) ..< length (heap s) + length cs] cs))"
  using assms
proof (induction cs arbitrary: s)
  case Nil
  then show ?case by simp
next
  case (Cons c cs)
  let ?r = "\<lparr>path = relativePath ext x, source = c, ast = None\<rparr>"
  let ?new = "[DebugLog (''File '' @ anonymize_path ext (g_options (gens s ! g))
                   (relativePath ext x) @ '' has been changed''),
               CollectFile g (length (heap s)) ?r]
              @ (if runReview (gens s ! g) = CallRequestReview then [RequestReview g] else [])"
  let ?s1 = "s\<lparr>heap := heap s @ [?r], trace := trace s @ ?new\<rparr>"
  have c: "c \<noteq> []" using Cons.prems(4) by simp
  have one: "run ext [Emit g SourceFiles Change x,
      Settle (length (tasks s)) (Fulfilled_string c)] s = ?s1"
    using change_on_unknown_path [OF Cons.prems(1) Cons.prems(2) Cons.prems(3) c] .
  have p1: "g < length (gens ?s1)" using Cons.prems(1) by simp
  have p2: "\<not> list_ex (\<lambda>pattern. glob_matches ext pattern x)
      (w_ignored (fileWatcher (gens ?s1 ! g)))"
    using Cons.prems(2) by simp
  have p3: "getFileFromMemoryCache (relativePath ext x) ?s1 = None"
    using Cons.prems(3) by (simp add: getFileFromMemoryCache_def)
  have p4: "\<forall>c \<in> set cs. c \<noteq> []" using Cons.prems(4) by simp
  note IH = Cons.IH [OF p1 p2 p3 p4]
  have split: "run ext (concat (map (\<lambda>c. [Emit g SourceFiles Change x,
        Settle (length (tasks s)) (Fulfilled_string c)]) (c # cs))) s
      = run ext (concat (map (\<lambda>c. [Emit g SourceFiles Change x,
        Settle (length (tasks ?s1)) (Fulfilled_string c)]) cs)) ?s1"
    using one by simp
  have upt: "[length (heap s) ..< length (heap s) + length (c # cs)]
      = length (heap s) # [length (heap ?s1) ..< length (heap ?s1) + length cs]"
    by (subst upt_rec) simp
  show ?case
    unfolding split upt using IH by (simp add: Let_def)
qed

text \<open>
  C9. A \<open>change\<close> event on a source file never alters the cache, neither when the
  handler starts nor when it resumes. For a path that the cache does not hold the handler
  works on a record of its own, created with an empty source, and never registers it: the
  cache stays as it was and so do the records it refers to. Hence every such event whose
  content is not empty sends the record and calls \<open>runReview\<close> again, also when the
  content is the same as that of the event before: a list of contents gives one
  notification each.
\<close>

theorem change_on_uncached_path_always_notifies:
  assumes "g < length (gens s)"
    and "\<not> list_ex (\<lambda>pattern. glob_matches ext pattern x) (w_ignored (fileWatcher (gens s ! g)))"
    and "getFileFromMemoryCache (relativePath ext x) s = None"
    and "\<forall>c \<in> set cs. c \<noteq> []"
  shows "(let s' = run ext (concat (map (\<lambda>c. [Emit g SourceFiles Change x,
                      Settle (length (tasks s)) (Fulfilled_string c)]) cs)) s
          in elmFilesCache s' = elmFilesCache s
           \<and> heap s' = heap s @ map (\<lambda>c. \<lparr>path = relativePath ext x, source = c, ast = None\<rparr>) cs
           \<and> trace s' = trace s @ concat (map (\<lambda>(a, c).
                 [DebugLog (''File '' @ anonymize_path ext (g_options (gens s ! g))
                              (relativePath ext x) @ '' has been changed''),
                  CollectFile g a \<lparr>path = relativePath ext x, source = c, ast = None\<rparr>]
                 @ (if runReview (gens s ! g) = CallRequestReview then [RequestReview g]
                    else []))
               (zip [length (heap s) ..< length (heap s) + length cs] cs)))
       \<and> elmFilesCache (step ext (Emit g' SourceFiles Change x') t) = elmFilesCache t
       \<and> (i < length (tasks t) \<and> tasks t ! i = FileChangeRead g' rp a
          \<longrightarrow> elmFilesCache (step ext (Settle i r) t) = elmFilesCache t)"
proof (intro conjI impI)
  show "let s' = run ext (concat (map (\<lambda>c. [Emit g SourceFiles Change x,
                      Settle (length (tasks s)) (Fulfilled_string c)]) cs)) s
        in elmFilesCache s' = elmFilesCache s
         \<and> heap s' = heap s @ map (\<lambda>c. \<lparr>path = relativePath ext x, source = c, ast = None\<rparr>) cs
         \<and> trace s' = trace s @ concat (map (\<lambda>(a, c).
               [DebugLog (''File '' @ anonymize_path ext (g_options (gens s ! g))
                            (relativePath ext x) @ '' has been changed''),
                CollectFile g a \<lparr>path = relativePath ext x, source = c, ast = None\<rparr>]
               @ (if runReview (gens s ! g) = CallRequestReview then [RequestReview g]
                  else []))
             (zip [length (heap s) ..< length (heap s) + length cs] cs))"
    using change_on_unknown_path_repeated [OF assms] .
next
  show "elmFilesCache (step ext (Emit g' SourceFiles Change x') t) = elmFilesCache t"
    by (simp add: emit_event_def fileWatcher_change_def Let_def split: option.split)
next
  assume a: "i < length (tasks t) \<and> tasks t ! i = FileChangeRead g' rp a"
  then show "elmFilesCache (step ext (Settle i r) t) = elmFilesCache t"
    by (cases r) (simp_all add: settle_def fileWatcher_change_afterRead_def Let_def)
qed

theorem change_on_uncached_path_always_notifies_witness:
  "0 < length (gens example_state)
   \<and> \<not> list_ex (\<lambda>pattern. glob_matches example_ext pattern ''src/B.elm'')
        (w_ignored (fileWatcher (gens example_state ! 0)))
   \<and> getFileFromMemoryCache (relativePath example_ext ''src/B.elm'') example_state = None
   \<and> (let s' = run example_ext
                 [Emit 0 SourceFiles Change ''src/B.elm'', Settle 0 (Fulfilled_string ''module B''),
                  Emit 0 SourceFiles Change ''src/B.elm'', Settle 0 (Fulfilled_string ''module B'')]
                 example_state
       in elmFilesCache s' = elmFilesCache example_state
        \<and> trace s' =
            [DebugLog ''File src/B.elm has been changed'',
             CollectFile 0 1 \<lparr>path = ''src/B.elm'', source = ''module B'', ast = None\<rparr>,
             RequestReview 0,
             DebugLog ''File src/B.elm has been changed'',
             CollectFile 0 2 \<lparr>path = ''src/B.elm'', source = ''module B'', ast = None\<rparr>,
             RequestReview 0])
   \<and> 0 < length (tasks (step example_ext (Emit 0 SourceFiles Change ''src/B.elm'')
         example_state))
   \<and> tasks (step example_ext (Emit 0 SourceFiles Change ''src/B.elm'') example_state) ! 0
       = FileChangeRead 0 ''src/B.elm'' 1
   \<and> elmFilesCache (step example_ext (Settle 0 (Fulfilled_string ''module B''))
         (step example_ext (Emit 0 SourceFiles Change ''src/B.elm'') example_state))
       = elmFilesCache example_state"
proof -
  let ?t = "step example_ext (Emit 0 SourceFiles Change ''src/B.elm'') example_state"
  have h1: "0 < length (gens example_state)"
    by (simp add: example_state_eq)
  have h2: "\<not> list_ex (\<lambda>pattern. glob_matches example_ext pattern ''src/B.elm'')
      (w_ignored (fileWatcher (gens example_state ! 0)))"
    by (simp add: example_state_eq example_ext_def chokidar_watch_def fileWatcher_ignored_def)
  have h3: "getFileFromMemoryCache (relativePath example_ext ''src/B.elm'') example_state = None"
    by (simp add: example_state_eq getFileFromMemoryCache_def relativePath_def example_ext_def)
  have h4: "\<forall>c \<in> set [''module B'', ''module B'']. c \<noteq> []"
    by simp
  have e: "relativePath example_ext ''src/B.elm'' = ''src/B.elm''"
    "anonymize_path example_ext (g_options (gens example_state ! 0)) ''src/B.elm'' = ''src/B.elm''"
    "runReview (gens example_state ! 0) = CallRequestReview"
    "length (heap example_state) = 1" "tasks example_state = []" "trace example_state = []"
    by (simp_all add: example_state_eq relativePath_def example_ext_def)
  have t: "?t = suspend (FileChangeRead 0 ''src/B.elm'' 1)
      (alloc \<lparr>path = ''src/B.elm'', source = [], ast = None\<rparr> example_state)"
    using h1 h2 h3 by (simp add: emit_event_def fileWatcher_change_def Let_def e)
  have h5: "0 < length (tasks ?t)" "tasks ?t ! 0 = FileChangeRead 0 ''src/B.elm'' 1"
    unfolding t by (simp_all add: e)
  note T = change_on_uncached_path_always_notifies [OF h1 h2 h3 h4,
      where g' = 0 and x' = "''src/B.elm''" and t = ?t and i = 0 and rp = "''src/B.elm''"
        and a = 1 and r = "Fulfilled_string ''module B''"]
  from T have run2: "let s' = run example_ext
        [Emit 0 SourceFiles Change ''src/B.elm'', Settle 0 (Fulfilled_string ''module B''),
         Emit 0 SourceFiles Change ''src/B.elm'', Settle 0 (Fulfilled_string ''module B'')]
        example_state
      in elmFilesCache s' = elmFilesCache example_state
       \<and> trace s' =
           [DebugLog ''File src/B.elm has been changed'',
            CollectFile 0 1 \<lparr>path = ''src/B.elm'', source = ''module B'', ast = None\<rparr>,
            RequestReview 0,
            DebugLog ''File src/B.elm has been changed'',
            CollectFile 0 2 \<lparr>path = ''src/B.elm'', source = ''module B'', ast = None\<rparr>,
            RequestReview 0]"
    by (simp add: e Let_def upt_conv_Cons)
  from T h5 have c1: "elmFilesCache (step example_ext (Settle 0 (Fulfilled_string ''module B'')) ?t)
      = elmFilesCache ?t"
    by blast
  have c2: "elmFilesCache ?t = elmFilesCache example_state"
    unfolding t by simp
  show ?thesis
    using h1 h2 h3 run2 h5 c1 c2 by simp
qed

subsection \<open>Removed source files\<close>



subsection \<open>Which handles a restart closes\<close>

lemma close_handle_sel [simp]:
  "tasks (close_handle g h s) = tasks s"
  "timers (close_handle g h s) = timers s"
  "heap (close_handle g h s) = heap s"
  "elmFilesCache (close_handle g h s) = elmFilesCache s"
  "readmeCache (close_handle g h s) = readmeCache s"
  "now (close_handle g h s) = now s"
  "nextTimerId (close_handle g h s) = nextTimerId s"
  "isFlushingStdio (close_handle g h s) = isFlushingStdio s"
  "stdinReadableListeners (close_handle g h s) = stdinReadableListeners s"
  "length (gens (close_handle g h s)) = length (gens s)"
  by (cases h; simp split: option.split)+

lemma close_handle_trace:
  "trace (close_handle g h s)
     = trace s @ (if watcher_of (gens s ! g) h = None then [] else [WatcherClose g h])"
  by (cases h) (simp_all split: option.split)

lemma same_config_refl [simp]: "same_config x x"
  by (cases x) simp_all

lemma same_config_trans: "same_config x y \<Longrightarrow> same_config y z \<Longrightarrow> same_config x z"
  by (cases x; cases y; cases z) simp_all

lemma same_config_None: "same_config x y \<Longrightarrow> y = None \<longleftrightarrow> x = None"
  by (cases x; cases y) simp_all

lemma same_but_closed_refl [simp]: "same_but_closed G G"
  by (simp add: same_but_closed_def)

lemma same_but_closed_trans:
  "same_but_closed G G' \<Longrightarrow> same_but_closed G' G'' \<Longrightarrow> same_but_closed G G''"
  unfolding same_but_closed_def
  by (elim conjE, intro conjI) (simp_all, (erule (1) same_config_trans)+)

lemma close_handle_gens:
  "g' < length (gens s) \<Longrightarrow>
   same_but_closed (gens s ! g') (gens (close_handle g h s) ! g')"
  by (cases h; cases "g = g'")
     (simp_all add: same_but_closed_def close_watcher_def split: option.split)

declare close_handle.simps [simp del]

lemma close_handles_sel [simp]:
  "tasks (close_handles g hs s) = tasks s"
  "timers (close_handles g hs s) = timers s"
  "heap (close_handles g hs s) = heap s"
  "elmFilesCache (close_handles g hs s) = elmFilesCache s"
  "readmeCache (close_handles g hs s) = readmeCache s"
  "now (close_handles g hs s) = now s"
  "nextTimerId (close_handles g hs s) = nextTimerId s"
  "isFlushingStdio (close_handles g hs s) = isFlushingStdio s"
  "stdinReadableListeners (close_handles g hs s) = stdinReadableListeners s"
  "length (gens (close_handles g hs s)) = length (gens s)"
  unfolding close_handles_def by (induction hs arbitrary: s; simp)+

lemma close_handles_gens:
  "g' < length (gens s) \<Longrightarrow>
   same_but_closed (gens s ! g') (gens (close_handles g hs s) ! g')"
proof (induction hs arbitrary: s)
  case Nil
  then show ?case by (simp add: close_handles_def)
next
  case (Cons h hs)
  have "same_but_closed (gens (close_handle g h s) ! g')
      (gens (close_handles g hs (close_handle g h s)) ! g')"
    using Cons.IH [of "close_handle g h s"] Cons.prems by simp
  then show ?case
    using close_handle_gens [OF Cons.prems, of g h]
    by (auto simp: close_handles_def intro: same_but_closed_trans)
qed

lemma watcher_of_None_same:
  "same_but_closed G G' \<Longrightarrow> watcher_of G' h = None \<longleftrightarrow> watcher_of G h = None"
  by (cases h) (auto simp: same_but_closed_def dest: same_config_None)

lemma close_handles_trace:
  "g < length (gens s) \<Longrightarrow>
   trace (close_handles g hs s)
     = trace s @ map (WatcherClose g) (filter (\<lambda>h. watcher_of (gens s ! g) h \<noteq> None) hs)"
proof (induction hs arbitrary: s)
  case Nil
  then show ?case by (simp add: close_handles_def)
next
  case (Cons h hs)
  let ?s1 = "close_handle g h s"
  have same: "\<And>h'. watcher_of (gens ?s1 ! g) h' = None \<longleftrightarrow> watcher_of (gens s ! g) h' = None"
    using watcher_of_None_same [OF close_handle_gens [OF Cons.prems, of g h]] by simp
  have "trace (close_handles g hs ?s1)
      = trace ?s1 @ map (WatcherClose g) (filter (\<lambda>h. watcher_of (gens ?s1 ! g) h \<noteq> None) hs)"
    using Cons.IH [of ?s1] Cons.prems by simp
  then show ?case
    by (simp add: close_handles_def close_handle_trace same)
qed

lemma watcher_of_update [simp]:
  "watcher_of (G\<lparr>elmJsonContent := v\<rparr>) h = watcher_of G h"
  "watcher_of (G\<lparr>runReview := r\<rparr>) h = watcher_of G h"
  "watcher_of (G\<lparr>suppressedErrorsTimeout := t\<rparr>) h = watcher_of G h"
  by (cases h; simp)+

lemma elmJsonWatcher_change_afterRead_trace:
  assumes "g < length (gens s)"
    and "JSON_stringify ext newValue \<noteq> JSON_stringify ext (elmJsonContent (gens s ! g))"
  shows "trace (elmJsonWatcher_change_afterRead ext g newValue s)
     = trace s @ map (WatcherClose g)
         (filter (\<lambda>h. watcher_of (gens s ! g) h \<noteq> None)
            [Manifest, Readme, SourceFiles, SuppressionFolder, ConfigurationFiles])"
  using assms
  by (simp add: elmJsonWatcher_change_afterRead_def Let_def close_handles_trace
      del: filter.simps)

lemma restart_callback_trace:
  assumes "g < length (gens s)"
  shows "trace (restart_callback g s)
     = trace s @ map (WatcherClose g)
         (filter (\<lambda>h. watcher_of (gens s ! g) h \<noteq> None)
            [Manifest, Readme, SourceFiles, SuppressionFolder])"
  using assms
  by (simp add: restart_callback_def Let_def close_handles_trace del: filter.simps)

text \<open>
  C2, as the code has it. The teardown of a manifest-triggered restart calls \<open>close()\<close>
  on every installed handle of the generation, the ConfigurationFiles handle included. It
  is the configuration-triggered restart whose teardown leaves that handle out: the
  configuration watcher's own \<open>change\<close> handler has closed it before, and the restart
  callback then closes the Manifest, Readme, SourceFiles and SuppressionFolder handles.
\<close>

theorem restart_teardown_sets:
  assumes "g < length (gens s)"
  shows "(i < length (tasks s) \<and> tasks s ! i = ElmJsonRead g
          \<and> JSON_stringify ext newValue \<noteq> JSON_stringify ext (elmJsonContent (gens s ! g))
        \<longrightarrow> trace (step ext (Settle i (Fulfilled_json newValue)) s)
            = trace s @ map (WatcherClose g)
                (filter (\<lambda>h. watcher_of (gens s ! g) h \<noteq> None)
                   [Manifest, Readme, SourceFiles, SuppressionFolder, ConfigurationFiles]))
       \<and> (configurationWatcher (gens s ! g) = Some w
          \<and> \<not> list_ex (\<lambda>pattern. glob_matches ext pattern x) (w_ignored w)
        \<longrightarrow> trace (step ext (Emit g ConfigurationFiles Change x) s)
              = trace s @ [WatcherClose g ConfigurationFiles]
          \<and> tasks (step ext (Emit g ConfigurationFiles Change x) s)
              = tasks s @ [ConfigurationClosing g])
       \<and> (j < length (tasks s) \<and> tasks s ! j = ConfigurationClosing g
        \<longrightarrow> trace (step ext (Settle j Fulfilled_unit) s)
            = trace s
              @ (if report (g_options (gens s ! g)) \<noteq> ''json''
                 then (if \<not> debug (g_options (gens s ! g))
                       then [StdoutWrite (clearConsole_sequence ext)] else [])
                      @ [ConsoleLog
                          ''Your configuration has changed. Restarting elm-review with the new one.'']
                 else [])
              @ map (WatcherClose g)
                  (filter (\<lambda>h. watcher_of (gens s ! g) h \<noteq> None)
                     [Manifest, Readme, SourceFiles, SuppressionFolder]))"
proof (intro conjI impI)
  assume a: "i < length (tasks s) \<and> tasks s ! i = ElmJsonRead g
    \<and> JSON_stringify ext newValue \<noteq> JSON_stringify ext (elmJsonContent (gens s ! g))"
  let ?s0 = "s\<lparr>tasks := take i (tasks s) @ drop (Suc i) (tasks s)\<rparr>"
  have "step ext (Settle i (Fulfilled_json newValue)) s
      = elmJsonWatcher_change_afterRead ext g newValue ?s0"
    using a assms by (simp add: settle_def)
  moreover have "trace (elmJsonWatcher_change_afterRead ext g newValue ?s0)
      = trace ?s0 @ map (WatcherClose g)
         (filter (\<lambda>h. watcher_of (gens ?s0 ! g) h \<noteq> None)
            [Manifest, Readme, SourceFiles, SuppressionFolder, ConfigurationFiles])"
    using a assms by (intro elmJsonWatcher_change_afterRead_trace) simp_all
  ultimately show "trace (step ext (Settle i (Fulfilled_json newValue)) s)
      = trace s @ map (WatcherClose g)
          (filter (\<lambda>h. watcher_of (gens s ! g) h \<noteq> None)
             [Manifest, Readme, SourceFiles, SuppressionFolder, ConfigurationFiles])"
    by simp
next
  assume a: "configurationWatcher (gens s ! g) = Some w
    \<and> \<not> list_ex (\<lambda>pattern. glob_matches ext pattern x) (w_ignored w)"
  then have "step ext (Emit g ConfigurationFiles Change x) s
      = suspend (ConfigurationClosing g) (close_handle g ConfigurationFiles s)"
    using assms by (simp add: emit_event_def configurationWatcher_change_def)
  then show "trace (step ext (Emit g ConfigurationFiles Change x) s)
        = trace s @ [WatcherClose g ConfigurationFiles]"
    using a by (simp add: close_handle_trace)
next
  assume a: "configurationWatcher (gens s ! g) = Some w
    \<and> \<not> list_ex (\<lambda>pattern. glob_matches ext pattern x) (w_ignored w)"
  then have "step ext (Emit g ConfigurationFiles Change x) s
      = suspend (ConfigurationClosing g) (close_handle g ConfigurationFiles s)"
    using assms by (simp add: emit_event_def configurationWatcher_change_def)
  then show "tasks (step ext (Emit g ConfigurationFiles Change x) s)
        = tasks s @ [ConfigurationClosing g]"
    by simp
next
  assume a: "j < length (tasks s) \<and> tasks s ! j = ConfigurationClosing g"
  let ?s0 = "s\<lparr>tasks := take j (tasks s) @ drop (Suc j) (tasks s)\<rparr>"
  let ?console = "(if report (g_options (gens s ! g)) \<noteq> ''json''
       then (if \<not> debug (g_options (gens s ! g))
             then [StdoutWrite (clearConsole_sequence ext)] else [])
            @ [ConsoleLog
                ''Your configuration has changed. Restarting elm-review with the new one.'']
       else [])"
  have st: "step ext (Settle j Fulfilled_unit) s
      = configurationWatcher_change_afterClose ext g ?s0"
    using a assms by (simp add: settle_def)
  define s1 where "s1 =
    (if report (g_options (gens s ! g)) \<noteq> ''json''
     then emit (ConsoleLog
            ''Your configuration has changed. Restarting elm-review with the new one.'')
            (if \<not> debug (g_options (gens s ! g)) then clearConsole ext ?s0 else ?s0)
     else ?s0)"
  have s1: "configurationWatcher_change_afterClose ext g ?s0 = restart_callback g s1"
    "gens s1 = gens s" "trace s1 = trace s @ ?console"
    by (simp_all add: configurationWatcher_change_afterClose_def Let_def s1_def)
  have "trace (restart_callback g s1)
      = trace s1 @ map (WatcherClose g)
         (filter (\<lambda>h. watcher_of (gens s1 ! g) h \<noteq> None)
            [Manifest, Readme, SourceFiles, SuppressionFolder])"
    using assms s1(2) by (intro restart_callback_trace) simp
  then show "trace (step ext (Settle j Fulfilled_unit) s)
      = trace s @ ?console
        @ map (WatcherClose g)
            (filter (\<lambda>h. watcher_of (gens s ! g) h \<noteq> None)
               [Manifest, Readme, SourceFiles, SuppressionFolder])"
    unfolding st s1(1) using s1(2,3) by simp
qed

lemma example_two_changes_sel:
  "gens example_two_changes =
     [\<lparr>g_options = example_options,
       g_app = 0,
       elmJsonContent = JObject [(''type'', JString ''application'')],
       runReview = CallRequestReview, suppressedErrorsTimeout = None,
       elmJsonWatcher = chokidar_watch [''elm.json''] [],
       readmeWatcher = Some (chokidar_watch [''README.md''] []),
       fileWatcher = chokidar_watch [''src/**/*.elm''] fileWatcher_ignored,
       suppressedErrorsWatcher = chokidar_watch [''review/suppressed/*.json''] [],
       configurationWatcher =
         Some (close_watcher
                 (chokidar_watch [''review/src/**/*.elm'', ''review/elm.json''] []))\<rparr>]"
  "tasks example_two_changes = [ElmJsonRead 0, ConfigurationClosing 0]"
  "trace example_two_changes = [WatcherClose 0 ConfigurationFiles]"
  by (simp_all add: example_two_changes_def example_state_eq emit_event_def
      elmJsonWatcher_change_def configurationWatcher_change_def chokidar_watch_def
      close_watcher_def close_handle.simps)

theorem restart_teardown_sets_witness:
  "0 < length (gens example_two_changes)
   \<and> 0 < length (tasks example_two_changes) \<and> tasks example_two_changes ! 0 = ElmJsonRead 0
   \<and> JSON_stringify example_ext (JObject [(''type'', JString ''package'')])
       \<noteq> JSON_stringify example_ext (elmJsonContent (gens example_two_changes ! 0))
   \<and> trace (step example_ext
         (Settle 0 (Fulfilled_json (JObject [(''type'', JString ''package'')])))
         example_two_changes)
       = [WatcherClose 0 ConfigurationFiles, WatcherClose 0 Manifest, WatcherClose 0 Readme,
          WatcherClose 0 SourceFiles, WatcherClose 0 SuppressionFolder,
          WatcherClose 0 ConfigurationFiles]
   \<and> configurationWatcher (gens example_two_changes ! 0)
       = Some (close_watcher
                 (chokidar_watch [''review/src/**/*.elm'', ''review/elm.json''] []))
   \<and> trace (step example_ext (Emit 0 ConfigurationFiles Change ''review/elm.json'')
         example_two_changes)
       = [WatcherClose 0 ConfigurationFiles, WatcherClose 0 ConfigurationFiles]
   \<and> 1 < length (tasks example_two_changes)
   \<and> tasks example_two_changes ! 1 = ConfigurationClosing 0
   \<and> trace (step example_ext (Settle 1 Fulfilled_unit) example_two_changes)
       = [WatcherClose 0 ConfigurationFiles,
          StdoutWrite (clearConsole_sequence example_ext),
          ConsoleLog ''Your configuration has changed. Restarting elm-review with the new one.'',
          WatcherClose 0 Manifest, WatcherClose 0 Readme, WatcherClose 0 SourceFiles,
          WatcherClose 0 SuppressionFolder]"
proof -
  let ?v = "JObject [(''type'', JString ''package'')]"
  let ?w = "close_watcher (chokidar_watch [''review/src/**/*.elm'', ''review/elm.json''] [])"
  have h0: "0 < length (gens example_two_changes)"
    by (simp add: example_two_changes_sel)
  have h1: "0 < length (tasks example_two_changes)"
    "tasks example_two_changes ! 0 = ElmJsonRead 0"
    "1 < length (tasks example_two_changes)"
    "tasks example_two_changes ! 1 = ConfigurationClosing 0"
    by (simp_all add: example_two_changes_sel)
  have h2: "JSON_stringify example_ext ?v
      \<noteq> JSON_stringify example_ext (elmJsonContent (gens example_two_changes ! 0))"
    by (simp add: example_two_changes_sel example_ext_def quoted_def)
  have h3: "configurationWatcher (gens example_two_changes ! 0) = Some ?w"
    by (simp add: example_two_changes_sel)
  have h4: "\<not> list_ex (\<lambda>pattern. glob_matches example_ext pattern ''review/elm.json'')
      (w_ignored ?w)"
    by (simp add: chokidar_watch_def close_watcher_def)
  have e: "report (g_options (gens example_two_changes ! 0)) \<noteq> ''json''"
    "\<not> debug (g_options (gens example_two_changes ! 0))"
    "filter (\<lambda>h. watcher_of (gens example_two_changes ! 0) h \<noteq> None)
       [Manifest, Readme, SourceFiles, SuppressionFolder, ConfigurationFiles]
     = [Manifest, Readme, SourceFiles, SuppressionFolder, ConfigurationFiles]"
    "filter (\<lambda>h. watcher_of (gens example_two_changes ! 0) h \<noteq> None)
       [Manifest, Readme, SourceFiles, SuppressionFolder]
     = [Manifest, Readme, SourceFiles, SuppressionFolder]"
    "trace example_two_changes = [WatcherClose 0 ConfigurationFiles]"
    by (simp_all add: example_two_changes_sel example_options_def)
  show ?thesis
    using restart_teardown_sets [OF h0, where i = 0 and j = 1 and ext = example_ext
        and newValue = ?v and w = ?w and x = "''review/elm.json''"]
      h0 h1 h2 h3 h4
    by (simp only: e) simp
qed

text \<open>
  C2 as stated fails: in the example process a changed manifest makes the teardown call
  \<open>close()\<close> on the ConfigurationFiles handle as well.
\<close>

theorem manifest_restart_closes_configuration_watcher:
  "trace (run example_ext
       [Emit 0 Manifest Change ''elm.json'',
        Settle 0 (Fulfilled_json (JObject [(''type'', JString ''package'')]))]
       example_state)
     = [WatcherClose 0 Manifest, WatcherClose 0 Readme, WatcherClose 0 SourceFiles,
        WatcherClose 0 SuppressionFolder, WatcherClose 0 ConfigurationFiles]
   \<and> map_option w_closed (configurationWatcher (gens (run example_ext
       [Emit 0 Manifest Change ''elm.json'',
        Settle 0 (Fulfilled_json (JObject [(''type'', JString ''package'')]))]
       example_state) ! 0)) = Some True"
  by (simp add: example_state_eq emit_event_def elmJsonWatcher_change_def settle_def
      elmJsonWatcher_change_afterRead_def example_ext_def quoted_def Let_def
      close_handles_def close_handle.simps chokidar_watch_def close_watcher_def)

subsection \<open>Once the review is disabled\<close>

lemma quiet_start:
  "g < length (gens s) \<Longrightarrow> runReview (gens s ! g) = DoNothing \<Longrightarrow> quiet g s s"
  by (simp add: quiet_def)

lemma quiet_emit: "e \<noteq> RequestReview g \<Longrightarrow> quiet g s0 s \<Longrightarrow> quiet g s0 (emit e s)"
  by (auto simp: quiet_def)

lemma quiet_call_runReview: "quiet g s0 s \<Longrightarrow> quiet g s0 (call_runReview g' s)"
  by (auto simp: quiet_def)

lemma quiet_update_gen:
  "(\<And>G. runReview G = DoNothing \<Longrightarrow> runReview (f G) = DoNothing) \<Longrightarrow>
   quiet g s0 s \<Longrightarrow> quiet g s0 (update_gen g' f s)"
  by (cases "g = g'") (auto simp: quiet_def)

lemma quiet_close_handle: "quiet g s0 s \<Longrightarrow> quiet g s0 (close_handle g' h s)"
  using close_handle_gens [of g s g' h]
  by (auto simp: quiet_def close_handle_trace same_but_closed_def)

lemma quiet_close_handles: "quiet g s0 s \<Longrightarrow> quiet g s0 (close_handles g' hs s)"
  unfolding close_handles_def
  by (induction hs arbitrary: s) (simp_all add: quiet_close_handle)

lemma quiet_same:
  "gens s' = gens s \<Longrightarrow> trace s' = trace s \<Longrightarrow> quiet g s0 s \<Longrightarrow> quiet g s0 s'"
  by (simp add: quiet_def)

lemma quiet_prims:
  "quiet g s0 s \<Longrightarrow> quiet g s0 (suspend t s)"
  "quiet g s0 s \<Longrightarrow> quiet g s0 (setTimeout g' d s)"
  "quiet g s0 s \<Longrightarrow> quiet g s0 (clearTimeout i s)"
  "quiet g s0 s \<Longrightarrow> quiet g s0 (alloc f s)"
  "quiet g s0 s \<Longrightarrow> quiet g s0 (mutate_source a c s)"
  "quiet g s0 s \<Longrightarrow> quiet g s0 (filesWereUpdated as s)"
  "quiet g s0 s \<Longrightarrow> quiet g s0 (snd (readmeChanged r s))"
  "quiet g s0 s \<Longrightarrow> quiet g s0 (s\<lparr>tasks := ts\<rparr>)"
  "quiet g s0 s \<Longrightarrow> quiet g s0 (s\<lparr>now := n, timers := tm\<rparr>)"
  by (erule quiet_same [rotated 2]; simp)+

lemma quiet_clearConsole: "quiet g s0 s \<Longrightarrow> quiet g s0 (clearConsole ext s)"
  by (simp add: clearConsole_def quiet_emit)

lemmas quiet_rules =
  quiet_emit quiet_call_runReview quiet_update_gen quiet_close_handle quiet_close_handles
  quiet_prims quiet_clearConsole

lemma quiet_updateSuppressedErrors:
  "quiet g s0 s \<Longrightarrow> quiet g s0 (updateSuppressedErrors g' s)"
  by (auto simp: updateSuppressedErrors_def Let_def intro!: quiet_rules split: option.split)

lemma quiet_deliver: "quiet g s0 s \<Longrightarrow> quiet g s0 (deliver ext g' h k x s)"
  by (cases h; cases k)
     (auto simp: elmJsonWatcher_change_def readmeWatcher_add_def readmeWatcher_change_def
        fileWatcher_add_def fileWatcher_change_def fileWatcher_unlink_def
        configurationWatcher_change_def quiet_updateSuppressedErrors Let_def
        intro!: quiet_rules split: option.split)

lemma quiet_resume: "quiet g s0 s \<Longrightarrow> quiet g s0 (resume ext t r s)"
  by (cases t; cases r)
     (auto simp: elmJsonWatcher_change_afterRead_def elmJsonWatcher_change_afterClose_def
        readmeWatcher_add_afterRead_def readmeWatcher_change_afterRead_def
        fileWatcher_add_afterRead_def fileWatcher_change_afterRead_def
        suppressedErrorsTimeout_afterRead_def configurationWatcher_change_afterClose_def
        restart_callback_def restart_callback_afterClose_def Let_def
        intro!: quiet_rules)

lemma quiet_fired:
  "quiet g s0 s \<Longrightarrow> quiet g s0 (foldl (\<lambda>s x. suppressedErrorsTimeout_fired (t_gen x) s) s due)"
  by (induction due arbitrary: s)
     (simp_all add: suppressedErrorsTimeout_fired_def quiet_prims)

lemma quiet_watchFiles: "quiet g s0 s \<Longrightarrow> quiet g s0 (watchFiles ext opts w s)"
  by (simp add: quiet_def watchFiles_def Let_def nth_append)

lemma quiet_step: "quiet g s0 s \<Longrightarrow> quiet g s0 (step ext e s)"
proof (cases e)
  case (CallWatchFiles opts w)
  then show "quiet g s0 s \<Longrightarrow> ?thesis" by (simp add: quiet_watchFiles)
next
  case (Emit g' h k x)
  then show "quiet g s0 s \<Longrightarrow> ?thesis"
    by (simp add: emit_event_def quiet_deliver split: option.split)
next
  case (Settle i r)
  then show "quiet g s0 s \<Longrightarrow> ?thesis"
    by (simp add: settle_def quiet_resume quiet_prims)
next
  case (Elapse d)
  then show "quiet g s0 s \<Longrightarrow> ?thesis"
    by (simp add: elapse_def Let_def quiet_fired quiet_prims)
qed

lemma quiet_run: "quiet g s0 s \<Longrightarrow> quiet g s0 (run ext evs s)"
  by (induction evs arbitrary: s) (simp_all add: quiet_step)

subsection \<open>The review is disabled where the restart callback closes handles\<close>

lemma dwc_same:
  "gens s' = gens s \<Longrightarrow> trace s' = trace s \<Longrightarrow> disabled_where_closed s \<Longrightarrow>
   disabled_where_closed s'"
  by (simp add: disabled_where_closed_def)

lemma dwc_prims:
  "disabled_where_closed s \<Longrightarrow> disabled_where_closed (suspend t s)"
  "disabled_where_closed s \<Longrightarrow> disabled_where_closed (setTimeout g' d s)"
  "disabled_where_closed s \<Longrightarrow> disabled_where_closed (clearTimeout i s)"
  "disabled_where_closed s \<Longrightarrow> disabled_where_closed (alloc f s)"
  "disabled_where_closed s \<Longrightarrow> disabled_where_closed (mutate_source a c s)"
  "disabled_where_closed s \<Longrightarrow> disabled_where_closed (filesWereUpdated as s)"
  "disabled_where_closed s \<Longrightarrow> disabled_where_closed (snd (readmeChanged r s))"
  "disabled_where_closed s \<Longrightarrow> disabled_where_closed (s\<lparr>tasks := ts\<rparr>)"
  "disabled_where_closed s \<Longrightarrow> disabled_where_closed (s\<lparr>now := n, timers := tm\<rparr>)"
  by (erule dwc_same [rotated 2]; simp)+

lemma dwc_emit:
  "(\<And>g h. e \<noteq> WatcherClose g h) \<Longrightarrow> disabled_where_closed s \<Longrightarrow>
   disabled_where_closed (emit e s)"
  by (auto simp: disabled_where_closed_def)

lemma dwc_call_runReview:
  "disabled_where_closed s \<Longrightarrow> disabled_where_closed (call_runReview g s)"
  by (auto simp: disabled_where_closed_def)

lemma dwc_clearConsole:
  "disabled_where_closed s \<Longrightarrow> disabled_where_closed (clearConsole ext s)"
  by (simp add: clearConsole_def dwc_emit)

lemma dwc_update_gen:
  assumes "\<And>G. runReview G = DoNothing \<Longrightarrow> runReview (f G) = DoNothing"
    and "disabled_where_closed s"
  shows "disabled_where_closed (update_gen g f s)"
  unfolding disabled_where_closed_def
proof (intro allI impI)
  fix g' h
  assume "WatcherClose g' h \<in> set (trace (update_gen g f s))"
  then have "h = ConfigurationFiles \<or> g' < length (gens s) \<and> runReview (gens s ! g') = DoNothing"
    using assms(2) by (simp add: disabled_where_closed_def)
  then show "h = ConfigurationFiles
      \<or> g' < length (gens (update_gen g f s)) \<and> runReview (gens (update_gen g f s) ! g') = DoNothing"
    using assms(1) by (cases "g = g'") auto
qed

lemma dwc_close_handle:
  assumes "disabled_where_closed s"
    and "h = ConfigurationFiles \<or> g < length (gens s) \<and> runReview (gens s ! g) = DoNothing"
  shows "disabled_where_closed (close_handle g h s)"
  unfolding disabled_where_closed_def
proof (intro allI impI)
  fix g' h'
  assume a: "WatcherClose g' h' \<in> set (trace (close_handle g h s))"
  have keep: "\<And>k. k < length (gens s) \<Longrightarrow>
      runReview (gens (close_handle g h s) ! k) = runReview (gens s ! k)"
    using close_handle_gens [of _ s g h] by (simp add: same_but_closed_def)
  from a have "WatcherClose g' h' \<in> set (trace s) \<or> (g' = g \<and> h' = h)"
    by (auto simp: close_handle_trace split: if_splits)
  then have "h' = ConfigurationFiles \<or> g' < length (gens s) \<and> runReview (gens s ! g') = DoNothing"
    using assms by (auto simp: disabled_where_closed_def)
  then show "h' = ConfigurationFiles
      \<or> g' < length (gens (close_handle g h s))
        \<and> runReview (gens (close_handle g h s) ! g') = DoNothing"
    using keep by auto
qed

lemma dwc_close_handles:
  assumes "disabled_where_closed s"
    and "g < length (gens s)" and "runReview (gens s ! g) = DoNothing"
  shows "disabled_where_closed (close_handles g hs s)"
  using assms
proof (induction hs arbitrary: s)
  case Nil
  then show ?case by (simp add: close_handles_def)
next
  case (Cons h hs)
  have 1: "disabled_where_closed (close_handle g h s)"
    using Cons.prems by (intro dwc_close_handle) simp_all
  have 2: "runReview (gens (close_handle g h s) ! g) = DoNothing"
    using close_handle_gens [of g s g h] Cons.prems by (simp add: same_but_closed_def)
  have "disabled_where_closed (close_handles g hs (close_handle g h s))"
    using Cons.IH [OF 1 _ 2] Cons.prems(2) by simp
  then show ?case by (simp add: close_handles_def)
qed

lemmas dwc_rules =
  dwc_prims dwc_emit dwc_call_runReview dwc_clearConsole dwc_update_gen dwc_close_handles

lemma dwc_updateSuppressedErrors:
  "disabled_where_closed s \<Longrightarrow> disabled_where_closed (updateSuppressedErrors g s)"
  by (auto simp: updateSuppressedErrors_def Let_def intro!: dwc_rules split: option.split)

lemma dwc_deliver:
  "disabled_where_closed s \<Longrightarrow> disabled_where_closed (deliver ext g h k x s)"
  by (cases h; cases k)
     (auto simp: elmJsonWatcher_change_def readmeWatcher_add_def readmeWatcher_change_def
        fileWatcher_add_def fileWatcher_change_def fileWatcher_unlink_def
        configurationWatcher_change_def dwc_updateSuppressedErrors Let_def
        intro!: dwc_rules dwc_close_handle split: option.split)

lemma dwc_resume:
  "task_gen t < length (gens s) \<Longrightarrow> disabled_where_closed s \<Longrightarrow>
   disabled_where_closed (resume ext t r s)"
  by (cases t; cases r)
     (auto simp: elmJsonWatcher_change_afterRead_def elmJsonWatcher_change_afterClose_def
        readmeWatcher_add_afterRead_def readmeWatcher_change_afterRead_def
        fileWatcher_add_afterRead_def fileWatcher_change_afterRead_def
        suppressedErrorsTimeout_afterRead_def configurationWatcher_change_afterClose_def
        restart_callback_def restart_callback_afterClose_def Let_def
        intro!: dwc_rules)

lemma dwc_fired:
  "disabled_where_closed s \<Longrightarrow>
   disabled_where_closed (foldl (\<lambda>s x. suppressedErrorsTimeout_fired (t_gen x) s) s due)"
  by (induction due arbitrary: s)
     (simp_all add: suppressedErrorsTimeout_fired_def dwc_prims)

lemma dwc_watchFiles:
  "disabled_where_closed s \<Longrightarrow> disabled_where_closed (watchFiles ext opts w s)"
  by (auto simp: disabled_where_closed_def watchFiles_def Let_def nth_append)

lemma dwc_step: "disabled_where_closed s \<Longrightarrow> disabled_where_closed (step ext e s)"
proof (cases e)
  case (CallWatchFiles opts w)
  then show "disabled_where_closed s \<Longrightarrow> ?thesis" by (simp add: dwc_watchFiles)
next
  case (Emit g' h k x)
  then show "disabled_where_closed s \<Longrightarrow> ?thesis"
    by (simp add: emit_event_def dwc_deliver split: option.split)
next
  case (Settle i r)
  then show "disabled_where_closed s \<Longrightarrow> ?thesis"
    by (simp add: settle_def dwc_resume dwc_prims)
next
  case (Elapse d)
  then show "disabled_where_closed s \<Longrightarrow> ?thesis"
    by (simp add: elapse_def Let_def dwc_fired dwc_prims)
qed

lemma dwc_run: "disabled_where_closed s \<Longrightarrow> disabled_where_closed (run ext evs s)"
  by (induction evs arbitrary: s) (simp_all add: dwc_step)

lemma dwc_initial: "disabled_where_closed initial"
  by (simp add: disabled_where_closed_def initial_def)

lemma manifest_trigger_disables:
  assumes "g < length (gens s)"
    and "JSON_stringify ext v \<noteq> JSON_stringify ext (elmJsonContent (gens s ! g))"
  shows "runReview (gens (elmJsonWatcher_change_afterRead ext g v s) ! g) = DoNothing"
proof -
  let ?s1 = "clearTimeout (suppressedErrorsTimeout
      (gens (update_gen g (\<lambda>G. G\<lparr>runReview := DoNothing\<rparr>)
         (update_gen g (\<lambda>G. G\<lparr>elmJsonContent := v\<rparr>) s)) ! g))
      (update_gen g (\<lambda>G. G\<lparr>runReview := DoNothing\<rparr>)
         (update_gen g (\<lambda>G. G\<lparr>elmJsonContent := v\<rparr>) s))"
  have 1: "g < length (gens ?s1)" "runReview (gens ?s1 ! g) = DoNothing"
    using assms(1) by simp_all
  have "runReview (gens (close_handles g
      [Manifest, Readme, SourceFiles, SuppressionFolder, ConfigurationFiles] ?s1) ! g) = DoNothing"
    using close_handles_gens [OF 1(1), of g] 1(2) by (simp add: same_but_closed_def)
  then show ?thesis
    using assms(2) by (simp add: elmJsonWatcher_change_afterRead_def Let_def)
qed

lemma restart_callback_disables:
  assumes "g < length (gens s)"
  shows "runReview (gens (restart_callback g s) ! g) = DoNothing"
proof -
  let ?s1 = "clearTimeout (suppressedErrorsTimeout
      (gens (update_gen g (\<lambda>G. G\<lparr>runReview := DoNothing\<rparr>) s) ! g))
      (update_gen g (\<lambda>G. G\<lparr>runReview := DoNothing\<rparr>) s)"
  have 1: "g < length (gens ?s1)" "runReview (gens ?s1 ! g) = DoNothing"
    using assms(1) by simp_all
  have "runReview (gens (close_handles g
      [Manifest, Readme, SourceFiles, SuppressionFolder] ?s1) ! g) = DoNothing"
    using close_handles_gens [OF 1(1), of g] 1(2) by (simp add: same_but_closed_def)
  then show ?thesis
    by (simp add: restart_callback_def Let_def)
qed

text \<open>
  C1, as the code has it. A changed manifest disables the review in the very handler step
  that then closes the handles: \<open>close()\<close> is called in a state where \<open>runReview\<close> does
  nothing already. A changed configuration file first calls \<open>close()\<close> on the
  ConfigurationFiles handle and waits for it; the review is disabled when the restart
  callback runs after that, and this callback then closes the other handles, again in a
  state where \<open>runReview\<close> does nothing already. So in every state the process reaches, a
  generation on one of whose Manifest, Readme, SourceFiles or SuppressionFolder handles
  \<open>close()\<close> has been called has its review disabled. Once the review of a generation
  is disabled it stays so, and no review request of that generation is forwarded to the
  runner, whatever events follow.
\<close>

theorem review_disabled_before_restart_teardown:
  "(\<forall>g h. WatcherClose g h \<in> set (trace (run ext evs initial)) \<and> h \<noteq> ConfigurationFiles
      \<longrightarrow> g < length (gens (run ext evs initial))
          \<and> runReview (gens (run ext evs initial) ! g) = DoNothing)
   \<and> (g < length (gens s) \<and> i < length (tasks s) \<and> tasks s ! i = ElmJsonRead g
        \<and> JSON_stringify ext v \<noteq> JSON_stringify ext (elmJsonContent (gens s ! g))
      \<longrightarrow> runReview (gens (step ext (Settle i (Fulfilled_json v)) s) ! g) = DoNothing
          \<and> (\<exists>s1. runReview (gens s1 ! g) = DoNothing
                \<and> step ext (Settle i (Fulfilled_json v)) s
                    = suspend (ElmJsonClosing g)
                        (close_handles g
                           [Manifest, Readme, SourceFiles, SuppressionFolder, ConfigurationFiles]
                           s1)))
   \<and> (g < length (gens s) \<and> j < length (tasks s) \<and> tasks s ! j = ConfigurationClosing g
      \<longrightarrow> runReview (gens (step ext (Settle j Fulfilled_unit) s) ! g) = DoNothing
          \<and> (\<exists>s1. runReview (gens s1 ! g) = DoNothing
                \<and> step ext (Settle j Fulfilled_unit) s
                    = suspend (RestartClosing g)
                        (close_handles g [Manifest, Readme, SourceFiles, SuppressionFolder] s1)))
   \<and> (g < length (gens s') \<and> runReview (gens s' ! g) = DoNothing
      \<longrightarrow> runReview (gens (run ext evs' s') ! g) = DoNothing
          \<and> (\<exists>new. trace (run ext evs' s') = trace s' @ new \<and> RequestReview g \<notin> set new))"
proof (intro conjI allI impI)
  fix g h
  assume "WatcherClose g h \<in> set (trace (run ext evs initial)) \<and> h \<noteq> ConfigurationFiles"
  then have "g < length (gens (run ext evs initial))
      \<and> runReview (gens (run ext evs initial) ! g) = DoNothing"
    using dwc_run [OF dwc_initial, of ext evs] by (auto simp: disabled_where_closed_def)
  then show "g < length (gens (run ext evs initial))"
    and "runReview (gens (run ext evs initial) ! g) = DoNothing"
    by simp_all
next
  assume a: "g < length (gens s) \<and> i < length (tasks s) \<and> tasks s ! i = ElmJsonRead g
    \<and> JSON_stringify ext v \<noteq> JSON_stringify ext (elmJsonContent (gens s ! g))"
  let ?s0 = "s\<lparr>tasks := take i (tasks s) @ drop (Suc i) (tasks s)\<rparr>"
  have "step ext (Settle i (Fulfilled_json v)) s = elmJsonWatcher_change_afterRead ext g v ?s0"
    using a by (simp add: settle_def)
  then show "runReview (gens (step ext (Settle i (Fulfilled_json v)) s) ! g) = DoNothing"
    using manifest_trigger_disables [of g ?s0 ext v] a by simp
next
  assume a: "g < length (gens s) \<and> i < length (tasks s) \<and> tasks s ! i = ElmJsonRead g
    \<and> JSON_stringify ext v \<noteq> JSON_stringify ext (elmJsonContent (gens s ! g))"
  let ?s0 = "s\<lparr>tasks := take i (tasks s) @ drop (Suc i) (tasks s)\<rparr>"
  let ?s1 = "clearTimeout (suppressedErrorsTimeout
      (gens (update_gen g (\<lambda>G. G\<lparr>runReview := DoNothing\<rparr>)
         (update_gen g (\<lambda>G. G\<lparr>elmJsonContent := v\<rparr>) ?s0)) ! g))
      (update_gen g (\<lambda>G. G\<lparr>runReview := DoNothing\<rparr>)
         (update_gen g (\<lambda>G. G\<lparr>elmJsonContent := v\<rparr>) ?s0))"
  have 1: "runReview (gens ?s1 ! g) = DoNothing"
    using a by simp
  have 2: "step ext (Settle i (Fulfilled_json v)) s
      = suspend (ElmJsonClosing g)
          (close_handles g
             [Manifest, Readme, SourceFiles, SuppressionFolder, ConfigurationFiles] ?s1)"
    using a by (simp add: settle_def elmJsonWatcher_change_afterRead_def Let_def)
  from 1 2 show "\<exists>s1. runReview (gens s1 ! g) = DoNothing
      \<and> step ext (Settle i (Fulfilled_json v)) s
          = suspend (ElmJsonClosing g)
              (close_handles g
                 [Manifest, Readme, SourceFiles, SuppressionFolder, ConfigurationFiles] s1)"
    by blast
next
  assume a: "g < length (gens s) \<and> j < length (tasks s) \<and> tasks s ! j = ConfigurationClosing g"
  let ?s0 = "s\<lparr>tasks := take j (tasks s) @ drop (Suc j) (tasks s)\<rparr>"
  define s1 where "s1 =
    (if report (g_options (gens s ! g)) \<noteq> ''json''
     then emit (ConsoleLog
            ''Your configuration has changed. Restarting elm-review with the new one.'')
            (if \<not> debug (g_options (gens s ! g)) then clearConsole ext ?s0 else ?s0)
     else ?s0)"
  have "step ext (Settle j Fulfilled_unit) s = restart_callback g s1" "gens s1 = gens s"
    using a by (simp_all add: settle_def configurationWatcher_change_afterClose_def Let_def s1_def)
  then show "runReview (gens (step ext (Settle j Fulfilled_unit) s) ! g) = DoNothing"
    using restart_callback_disables [of g s1] a by simp
next
  assume a: "g < length (gens s) \<and> j < length (tasks s) \<and> tasks s ! j = ConfigurationClosing g"
  let ?s0 = "s\<lparr>tasks := take j (tasks s) @ drop (Suc j) (tasks s)\<rparr>"
  define s1 where "s1 =
    (if report (g_options (gens s ! g)) \<noteq> ''json''
     then emit (ConsoleLog
            ''Your configuration has changed. Restarting elm-review with the new one.'')
            (if \<not> debug (g_options (gens s ! g)) then clearConsole ext ?s0 else ?s0)
     else ?s0)"
  let ?s2 = "clearTimeout (suppressedErrorsTimeout
      (gens (update_gen g (\<lambda>G. G\<lparr>runReview := DoNothing\<rparr>) s1) ! g))
      (update_gen g (\<lambda>G. G\<lparr>runReview := DoNothing\<rparr>) s1)"
  have g1: "gens s1 = gens s"
    by (simp add: s1_def)
  have 1: "runReview (gens ?s2 ! g) = DoNothing"
    using a g1 by simp
  have "step ext (Settle j Fulfilled_unit) s = restart_callback g s1"
    using a by (simp add: settle_def configurationWatcher_change_afterClose_def Let_def s1_def)
  then have 2: "step ext (Settle j Fulfilled_unit) s
      = suspend (RestartClosing g)
          (close_handles g [Manifest, Readme, SourceFiles, SuppressionFolder] ?s2)"
    by (simp add: restart_callback_def Let_def)
  from 1 2 show "\<exists>s1. runReview (gens s1 ! g) = DoNothing
      \<and> step ext (Settle j Fulfilled_unit) s
          = suspend (RestartClosing g)
              (close_handles g [Manifest, Readme, SourceFiles, SuppressionFolder] s1)"
    by blast
next
  assume a: "g < length (gens s') \<and> runReview (gens s' ! g) = DoNothing"
  then have q: "quiet g s' (run ext evs' s')"
    by (intro quiet_run quiet_start) simp_all
  from q show "runReview (gens (run ext evs' s') ! g) = DoNothing"
    by (simp add: quiet_def)
  from q show "\<exists>new. trace (run ext evs' s') = trace s' @ new \<and> RequestReview g \<notin> set new"
    by (simp add: quiet_def)
qed

lemma example_restarting_sel:
  "length (gens example_restarting) = 1"
  "runReview (gens example_restarting ! 0) = DoNothing"
  "g_options (gens example_restarting ! 0) = example_options"
  "w_ignored (fileWatcher (gens example_restarting ! 0)) = fileWatcher_ignored"
  "tasks example_restarting = [ElmJsonClosing 0]"
  "trace example_restarting
     = [WatcherClose 0 Manifest, WatcherClose 0 Readme, WatcherClose 0 SourceFiles,
        WatcherClose 0 SuppressionFolder, WatcherClose 0 ConfigurationFiles]"
  by (simp_all add: example_restarting_def example_state_eq emit_event_def
      elmJsonWatcher_change_def settle_def elmJsonWatcher_change_afterRead_def
      example_ext_def quoted_def Let_def close_handles_def close_handle.simps
      chokidar_watch_def close_watcher_def)

theorem review_disabled_before_restart_teardown_witness:
  "WatcherClose 0 Manifest
     \<in> set (trace (run example_ext
         [CallWatchFiles example_options example_watchOptions,
          Emit 0 Manifest Change ''elm.json'',
          Settle 0 (Fulfilled_json (JObject [(''type'', JString ''package'')]))] initial))
   \<and> Manifest \<noteq> ConfigurationFiles
   \<and> runReview (gens (run example_ext
         [CallWatchFiles example_options example_watchOptions,
          Emit 0 Manifest Change ''elm.json'',
          Settle 0 (Fulfilled_json (JObject [(''type'', JString ''package'')]))] initial) ! 0)
       = DoNothing
   \<and> 0 < length (gens example_two_changes)
   \<and> 0 < length (tasks example_two_changes) \<and> tasks example_two_changes ! 0 = ElmJsonRead 0
   \<and> JSON_stringify example_ext (JObject [(''type'', JString ''package'')])
       \<noteq> JSON_stringify example_ext (elmJsonContent (gens example_two_changes ! 0))
   \<and> runReview (gens (step example_ext
         (Settle 0 (Fulfilled_json (JObject [(''type'', JString ''package'')])))
         example_two_changes) ! 0) = DoNothing
   \<and> 1 < length (tasks example_two_changes)
   \<and> tasks example_two_changes ! 1 = ConfigurationClosing 0
   \<and> runReview (gens (step example_ext (Settle 1 Fulfilled_unit) example_two_changes) ! 0)
       = DoNothing
   \<and> 0 < length (gens example_restarting)
   \<and> runReview (gens example_restarting ! 0) = DoNothing
   \<and> runReview (gens (run example_ext
         [Emit 0 SourceFiles Unlink ''src/A.elm''] example_restarting) ! 0) = DoNothing
   \<and> trace (run example_ext [Emit 0 SourceFiles Unlink ''src/A.elm''] example_restarting)
       = trace example_restarting
         @ [DebugLog ''File src/A.elm has been removed'', RemoveFile 0 ''src/A.elm'']"
proof -
  let ?v = "JObject [(''type'', JString ''package'')]"
  let ?evs = "[CallWatchFiles example_options example_watchOptions,
      Emit 0 Manifest Change ''elm.json'', Settle 0 (Fulfilled_json ?v)]"
  note T = review_disabled_before_restart_teardown
    [where ext = example_ext and evs = ?evs and g = 0 and s = example_two_changes
      and i = 0 and v = ?v and j = 1 and s' = example_restarting
      and evs' = "[Emit 0 SourceFiles Unlink ''src/A.elm'']"]
  have r: "run example_ext ?evs initial = example_restarting"
    by (simp add: example_restarting_def example_state_def)
  have a1: "WatcherClose 0 Manifest \<in> set (trace (run example_ext ?evs initial))"
    unfolding r by (simp add: example_restarting_sel)
  have a2: "Manifest \<noteq> ConfigurationFiles" by simp
  have b: "0 < length (gens example_two_changes)"
    "0 < length (tasks example_two_changes)" "tasks example_two_changes ! 0 = ElmJsonRead 0"
    "JSON_stringify example_ext ?v
       \<noteq> JSON_stringify example_ext (elmJsonContent (gens example_two_changes ! 0))"
    "1 < length (tasks example_two_changes)"
    "tasks example_two_changes ! 1 = ConfigurationClosing 0"
    by (simp_all add: example_two_changes_sel example_ext_def quoted_def)
  have c: "0 < length (gens example_restarting)"
    "runReview (gens example_restarting ! 0) = DoNothing"
    by (simp_all add: example_restarting_sel)
  have d: "trace (run example_ext [Emit 0 SourceFiles Unlink ''src/A.elm''] example_restarting)
      = trace example_restarting
        @ [DebugLog ''File src/A.elm has been removed'', RemoveFile 0 ''src/A.elm'']"
    by (simp add: emit_event_def example_restarting_sel fileWatcher_ignored_def
        fileWatcher_unlink_def relativePath_def Let_def, simp add: example_ext_def)
  from T a1 a2 have t1: "runReview (gens (run example_ext ?evs initial) ! 0) = DoNothing"
    by blast
  from T b have t2: "runReview (gens (step example_ext (Settle 0 (Fulfilled_json ?v))
      example_two_changes) ! 0) = DoNothing"
    by blast
  from T b have t3: "runReview (gens (step example_ext (Settle 1 Fulfilled_unit)
      example_two_changes) ! 0) = DoNothing"
    by blast
  from T c have t4: "runReview (gens (run example_ext
      [Emit 0 SourceFiles Unlink ''src/A.elm''] example_restarting) ! 0) = DoNothing"
    by blast
  show ?thesis
    using a1 a2 t1 b t2 t3 c t4 d by blast
qed

text \<open>
  C1 as stated fails for the configuration trigger. In the example process a
  configuration file changes: \<open>close()\<close> is called on the ConfigurationFiles handle while
  \<open>runReview\<close> still forwards, and a source file that changes before that \<open>close()\<close> has
  finished has its review request forwarded to the runner.
\<close>

theorem review_forwarded_after_configuration_close_began:
  "runReview (gens (step example_ext (Emit 0 ConfigurationFiles Change ''review/elm.json'')
      example_state) ! 0) = CallRequestReview
   \<and> trace (step example_ext (Emit 0 ConfigurationFiles Change ''review/elm.json'')
      example_state) = [WatcherClose 0 ConfigurationFiles]
   \<and> trace (run example_ext
       [Emit 0 ConfigurationFiles Change ''review/elm.json'',
        Emit 0 SourceFiles Change ''src/A.elm'',
        Settle 1 (Fulfilled_string ''module A exposing (a)'')]
       example_state)
     = [WatcherClose 0 ConfigurationFiles,
        DebugLog ''File src/A.elm has been changed'',
        CollectFile 0 0 \<lparr>path = ''src/A.elm'', source = ''module A exposing (a)'', ast = None\<rparr>,
        RequestReview 0]"
  by (simp add: example_state_eq emit_event_def configurationWatcher_change_def
      close_handle.simps chokidar_watch_def close_watcher_def fileWatcher_ignored_def
      fileWatcher_change_def relativePath_def getFileFromMemoryCache_def settle_def
      fileWatcher_change_afterRead_def Let_def example_ext_def)

subsection \<open>A manifest whose content has not changed\<close>





subsection \<open>What holds in every state the process reaches\<close>

lemma wf_fewer_timers:
  "gens s' = gens s \<Longrightarrow> set (timers s') \<subseteq> set (timers s) \<Longrightarrow> wellformed s \<Longrightarrow>
   wellformed s'"
  by (auto simp: wellformed_def)

lemma wf_prims:
  "wellformed s \<Longrightarrow> wellformed (emit e s)"
  "wellformed s \<Longrightarrow> wellformed (suspend t s)"
  "wellformed s \<Longrightarrow> wellformed (clearTimeout i s)"
  "wellformed s \<Longrightarrow> wellformed (alloc f s)"
  "wellformed s \<Longrightarrow> wellformed (mutate_source a c s)"
  "wellformed s \<Longrightarrow> wellformed (filesWereUpdated as s)"
  "wellformed s \<Longrightarrow> wellformed (snd (readmeChanged r s))"
  "wellformed s \<Longrightarrow> wellformed (clearConsole ext s)"
  "wellformed s \<Longrightarrow> wellformed (call_runReview g s)"
  "wellformed s \<Longrightarrow> wellformed (s\<lparr>tasks := ts\<rparr>)"
  "wellformed s \<Longrightarrow> wellformed (s\<lparr>now := n, timers := filter P (timers s)\<rparr>)"
  by (erule wf_fewer_timers [rotated 2]; cases i; simp)+

lemma wf_update_gen:
  assumes "\<And>G. w_ignored (suppressedErrorsWatcher (f G)) = w_ignored (suppressedErrorsWatcher G)
      \<and> w_ignored (fileWatcher (f G)) = w_ignored (fileWatcher G)
      \<and> suppressedErrorsTimeout (f G) = suppressedErrorsTimeout G"
    and "wellformed s"
  shows "wellformed (update_gen g f s)"
proof -
  have "\<And>k. k < length (gens s) \<Longrightarrow>
      w_ignored (suppressedErrorsWatcher ((gens s)[g := f (gens s ! g)] ! k))
        = w_ignored (suppressedErrorsWatcher (gens s ! k))
      \<and> w_ignored (fileWatcher ((gens s)[g := f (gens s ! g)] ! k))
        = w_ignored (fileWatcher (gens s ! k))
      \<and> suppressedErrorsTimeout ((gens s)[g := f (gens s ! g)] ! k)
        = suppressedErrorsTimeout (gens s ! k)"
    using assms(1) by (case_tac "g = k") simp_all
  then show ?thesis
    using assms(2) by (simp add: wellformed_def)
qed

lemma wf_close_handle: "wellformed s \<Longrightarrow> wellformed (close_handle g h s)"
proof -
  assume a: "wellformed s"
  have "\<And>k. k < length (gens s) \<Longrightarrow>
      w_ignored (suppressedErrorsWatcher (gens (close_handle g h s) ! k))
        = w_ignored (suppressedErrorsWatcher (gens s ! k))
      \<and> w_ignored (fileWatcher (gens (close_handle g h s) ! k))
        = w_ignored (fileWatcher (gens s ! k))
      \<and> suppressedErrorsTimeout (gens (close_handle g h s) ! k)
        = suppressedErrorsTimeout (gens s ! k)"
    using close_handle_gens [of _ s g h] by (simp add: same_but_closed_def)
  then show ?thesis
    using a by (simp add: wellformed_def)
qed

lemma wf_close_handles: "wellformed s \<Longrightarrow> wellformed (close_handles g hs s)"
  unfolding close_handles_def
  by (induction hs arbitrary: s) (simp_all add: wf_close_handle)

lemma wf_updateSuppressedErrors:
  assumes "wellformed s" and "g < length (gens s)"
  shows "wellformed (updateSuppressedErrors g s)"
proof -
  let ?old = "suppressedErrorsTimeout (gens s ! g)"
  let ?s1 = "(case ?old of None \<Rightarrow> s | Some i \<Rightarrow> clearTimeout (Some i) s)"
  have g1: "gens ?s1 = gens s" "nextTimerId ?s1 = nextTimerId s" "now ?s1 = now s"
    by (simp_all split: option.split)
  have t1: "\<forall>t \<in> set (timers ?s1). t_gen t \<noteq> g
      \<and> t_gen t < length (gens s) \<and> suppressedErrorsTimeout (gens s ! t_gen t) = Some (t_id t)"
    using assms(1) by (cases ?old) (auto simp: wellformed_def)
  have eq: "updateSuppressedErrors g s
      = update_gen g (\<lambda>G. G\<lparr>suppressedErrorsTimeout := Some (nextTimerId s)\<rparr>)
          (setTimeout g 20 ?s1)"
    by (simp add: updateSuppressedErrors_def Let_def g1)
  have "\<And>k. k < length (gens s) \<Longrightarrow>
      w_ignored (suppressedErrorsWatcher
          ((gens s)[g := (gens s ! g)\<lparr>suppressedErrorsTimeout := Some (nextTimerId s)\<rparr>] ! k))
        = w_ignored (suppressedErrorsWatcher (gens s ! k))
      \<and> w_ignored (fileWatcher
          ((gens s)[g := (gens s ! g)\<lparr>suppressedErrorsTimeout := Some (nextTimerId s)\<rparr>] ! k))
        = w_ignored (fileWatcher (gens s ! k))"
    by (case_tac "g = k") simp_all
  then show ?thesis
    unfolding eq using assms t1 by (auto simp: wellformed_def g1)
qed

lemmas wf_rules = wf_prims wf_update_gen wf_close_handle wf_close_handles

lemma wf_deliver:
  "g < length (gens s) \<Longrightarrow> wellformed s \<Longrightarrow> wellformed (deliver ext g h k x s)"
  by (cases h; cases k)
     (auto simp: elmJsonWatcher_change_def readmeWatcher_add_def readmeWatcher_change_def
        fileWatcher_add_def fileWatcher_change_def fileWatcher_unlink_def
        configurationWatcher_change_def wf_updateSuppressedErrors Let_def
        intro!: wf_rules split: option.split)

lemma wf_resume: "wellformed s \<Longrightarrow> wellformed (resume ext t r s)"
  by (cases t; cases r)
     (auto simp: elmJsonWatcher_change_afterRead_def elmJsonWatcher_change_afterClose_def
        readmeWatcher_add_afterRead_def readmeWatcher_change_afterRead_def
        fileWatcher_add_afterRead_def fileWatcher_change_afterRead_def
        suppressedErrorsTimeout_afterRead_def configurationWatcher_change_afterClose_def
        restart_callback_def restart_callback_afterClose_def Let_def
        intro!: wf_rules)

lemma wf_fired:
  "wellformed s \<Longrightarrow>
   wellformed (foldl (\<lambda>s x. suppressedErrorsTimeout_fired (t_gen x) s) s due)"
  by (induction due arbitrary: s)
     (simp_all add: suppressedErrorsTimeout_fired_def wf_prims)

lemma wf_watchFiles: "wellformed s \<Longrightarrow> wellformed (watchFiles ext opts w s)"
  by (auto simp: wellformed_def watchFiles_def Let_def nth_append chokidar_watch_def
      less_Suc_eq)

lemma wf_step: "wellformed s \<Longrightarrow> wellformed (step ext e s)"
proof (cases e)
  case (CallWatchFiles opts w)
  then show "wellformed s \<Longrightarrow> ?thesis" by (simp add: wf_watchFiles)
next
  case (Emit g' h k x)
  then show "wellformed s \<Longrightarrow> ?thesis"
    by (simp add: emit_event_def wf_deliver split: option.split)
next
  case (Settle i r)
  then show "wellformed s \<Longrightarrow> ?thesis"
    by (simp add: settle_def wf_resume wf_prims)
next
  case (Elapse d)
  then show "wellformed s \<Longrightarrow> ?thesis"
    by (simp add: elapse_def Let_def wf_fired wf_prims)
qed

lemma wf_run: "wellformed s \<Longrightarrow> wellformed (run ext evs s)"
  by (induction evs arbitrary: s) (simp_all add: wf_step)

lemma wf_initial: "wellformed initial"
  by (simp add: wellformed_def initial_def)

subsection \<open>The exclusion list of the source-file watcher\<close>



text \<open>
  The paths that the four patterns exclude under the example matcher: those that begin
  with \<open>node_modules\<close>, \<open>elm-stuff\<close> or a segment with a leading dot, and those with the
  sentinel file name as a segment.
\<close>

lemma wild_literal: "CHR ''*'' \<notin> set p \<Longrightarrow> wild p s \<longleftrightarrow> p = s"
  by (induction p s rule: wild.induct) auto

lemma wild_star [simp]: "wild ''*'' s"
  by (induction s) simp_all

lemma wild_dot_star: "wild ''.*'' s \<longleftrightarrow> (\<exists>cs. s = CHR ''.'' # cs)"
  by (cases s) auto

lemma globsegs_Nil [simp]: "globsegs [] t \<longleftrightarrow> t = []"
  by (cases t) simp_all

lemma globsegs_globstar [simp]: "globsegs [''**''] t"
  by (induction t) simp_all

lemma globsegs_below:
  "q \<noteq> ''**'' \<Longrightarrow> globsegs [q, ''**''] t \<longleftrightarrow> (\<exists>s r. t = s # r \<and> wild q s)"
  by (cases t) auto

lemma globsegs_single: "q \<noteq> ''**'' \<Longrightarrow> globsegs [q] t \<longleftrightarrow> (\<exists>s. t = [s] \<and> wild q s)"
  by (cases t) auto

lemma globsegs_last:
  "q \<noteq> ''**'' \<Longrightarrow> globsegs [''**'', q] t \<longleftrightarrow> t \<noteq> [] \<and> wild q (last t)"
  by (induction t) (auto simp: globsegs_single)

lemma ancestors_nonempty: "t \<in> set (ancestors xs) \<Longrightarrow> t \<noteq> []"
  by (induction xs arbitrary: t) auto

lemma ancestors_last: "last ` set (ancestors xs) = set xs"
proof (induction xs)
  case Nil
  show ?case by simp
next
  case (Cons x xs)
  have "\<And>t. t \<in> set (ancestors xs) \<Longrightarrow> last (x # t) = last t"
    by (auto dest: ancestors_nonempty)
  then have "(\<lambda>t. last (x # t)) ` set (ancestors xs) = last ` set (ancestors xs)"
    by (intro image_cong) simp_all
  then show ?case
    using Cons by (simp add: image_image)
qed

lemma segments_nonempty: "segments p \<noteq> []"
  by (induction p) (auto split: list.split)

lemma example_exclusions:
  "list_ex (\<lambda>pattern. glob_matches example_ext pattern p) fileWatcher_ignored
   \<longleftrightarrow> hd (segments p) = ''node_modules'' \<or> hd (segments p) = ''elm-stuff''
       \<or> (\<exists>cs. hd (segments p) = CHR ''.'' # cs)
       \<or> ''ElmjutsuDumMyM0DuL3.elm'' \<in> set (segments p)"
proof -
  obtain s ss where p: "segments p = s # ss"
    using segments_nonempty [of p] by (cases "segments p") auto
  have pm: "picomatch ''node_modules''
        = (\<lambda>t. globsegs [''node_modules''] t \<or> globsegs [''node_modules'', ''**''] t)"
    "picomatch ''elm-stuff''
        = (\<lambda>t. globsegs [''elm-stuff''] t \<or> globsegs [''elm-stuff'', ''**''] t)"
    "picomatch ''.*'' = globsegs [''.*'']"
    "picomatch ''**/ElmjutsuDumMyM0DuL3.elm'' = globsegs [''**'', ''ElmjutsuDumMyM0DuL3.elm'']"
    by (simp_all add: fun_eq_iff del: globsegs.simps)
  have lit: "\<And>q. CHR ''*'' \<notin> set q \<Longrightarrow> q \<noteq> ''**'' \<Longrightarrow>
      list_ex (\<lambda>t. globsegs [q] t \<or> globsegs [q, ''**''] t) (ancestors (s # ss)) \<longleftrightarrow> s = q"
    by (auto simp: list_ex_iff globsegs_single globsegs_below wild_literal)
  have dot: "list_ex (globsegs [''.*'']) (ancestors (s # ss)) \<longleftrightarrow> (\<exists>cs. s = CHR ''.'' # cs)"
    by (auto simp: list_ex_iff globsegs_single wild_dot_star)
  have "list_ex (globsegs [''**'', ''ElmjutsuDumMyM0DuL3.elm'']) (ancestors (s # ss))
      \<longleftrightarrow> ''ElmjutsuDumMyM0DuL3.elm'' \<in> last ` set (ancestors (s # ss))"
    unfolding list_ex_iff
    by (auto simp: globsegs_last wild_literal image_iff dest: ancestors_nonempty)
  then have sent: "list_ex (globsegs [''**'', ''ElmjutsuDumMyM0DuL3.elm'']) (ancestors (s # ss))
      \<longleftrightarrow> ''ElmjutsuDumMyM0DuL3.elm'' \<in> set (s # ss)"
    unfolding ancestors_last .
  show ?thesis
    using lit [of "''node_modules''"] lit [of "''elm-stuff''"] dot sent
    by (simp add: example_ext_def fileWatcher_ignored_def p pm
        del: ancestors.simps globsegs.simps picomatch_def)
qed




subsection \<open>The listener on stdin\<close>

lemma close_handles_stdin [simp]:
  "isFlushingStdio (close_handles g hs s) = isFlushingStdio s"
  "stdinReadableListeners (close_handles g hs s) = stdinReadableListeners s"
  by simp_all

lemma updateSuppressedErrors_stdin [simp]:
  "isFlushingStdio (updateSuppressedErrors g s) = isFlushingStdio s"
  "stdinReadableListeners (updateSuppressedErrors g s) = stdinReadableListeners s"
  by (simp_all add: updateSuppressedErrors_def Let_def split: option.split)

lemma deliver_stdin:
  "isFlushingStdio (deliver ext g h k x s) = isFlushingStdio s
   \<and> stdinReadableListeners (deliver ext g h k x s) = stdinReadableListeners s"
  by (cases h; cases k)
     (simp_all add: elmJsonWatcher_change_def readmeWatcher_add_def readmeWatcher_change_def
        fileWatcher_add_def fileWatcher_change_def fileWatcher_unlink_def
        configurationWatcher_change_def Let_def split: option.split)

lemma resume_stdin:
  "isFlushingStdio (resume ext t r s) = isFlushingStdio s
   \<and> stdinReadableListeners (resume ext t r s) = stdinReadableListeners s"
  by (cases t; cases r)
     (simp_all add: elmJsonWatcher_change_afterRead_def elmJsonWatcher_change_afterClose_def
        readmeWatcher_add_afterRead_def readmeWatcher_change_afterRead_def
        fileWatcher_add_afterRead_def fileWatcher_change_afterRead_def
        suppressedErrorsTimeout_afterRead_def configurationWatcher_change_afterClose_def
        restart_callback_def restart_callback_afterClose_def Let_def)

lemma fired_stdin:
  "isFlushingStdio (foldl (\<lambda>s x. suppressedErrorsTimeout_fired (t_gen x) s) s due)
     = isFlushingStdio s
   \<and> stdinReadableListeners (foldl (\<lambda>s x. suppressedErrorsTimeout_fired (t_gen x) s) s due)
     = stdinReadableListeners s"
  by (induction due arbitrary: s) (simp_all add: suppressedErrorsTimeout_fired_def)

lemma watchFiles_stdin:
  "isFlushingStdio (watchFiles ext opts w s)"
  "stdinReadableListeners (watchFiles ext opts w s)
     = (if isFlushingStdio s then stdinReadableListeners s
        else Suc (stdinReadableListeners s))"
  by (simp_all add: watchFiles_def Let_def)

lemma step_stdin:
  "isFlushingStdio (step ext e s) = (isFlushingStdio s \<or> is_CallWatchFiles e)"
  "stdinReadableListeners (step ext e s)
     = (if is_CallWatchFiles e \<and> \<not> isFlushingStdio s then Suc (stdinReadableListeners s)
        else stdinReadableListeners s)"
  by (cases e;
      simp add: watchFiles_stdin emit_event_def deliver_stdin settle_def resume_stdin
        elapse_def Let_def fired_stdin split: option.split)+

lemma run_stdin:
  "isFlushingStdio (run ext evs s) = (isFlushingStdio s \<or> list_ex is_CallWatchFiles evs)"
  "stdinReadableListeners (run ext evs s)
     = (if list_ex is_CallWatchFiles evs \<and> \<not> isFlushingStdio s
        then Suc (stdinReadableListeners s) else stdinReadableListeners s)"
  by (induction evs arbitrary: s; simp add: step_stdin; blast?)+

text \<open>
  C8. Starting from a fresh process, after any sequence of events with any number of
  calls of \<open>watchFiles\<close> among them, stdin has one \<open>readable\<close> listener if there has been a
  call and none otherwise. The module flag is set by the first call; once it is set it
  stays set and no event installs another listener.
\<close>

theorem stdin_listener_installed_once:
  "stdinReadableListeners (run ext evs initial)
     = (if list_ex is_CallWatchFiles evs then 1 else 0)
   \<and> isFlushingStdio (run ext evs initial) = list_ex is_CallWatchFiles evs
   \<and> (isFlushingStdio s
      \<longrightarrow> isFlushingStdio (run ext evs' s)
          \<and> stdinReadableListeners (run ext evs' s) = stdinReadableListeners s)"
  by (simp add: run_stdin) (simp add: initial_def)

theorem stdin_listener_installed_once_witness:
  "isFlushingStdio example_state
   \<and> isFlushingStdio (run example_ext
        [CallWatchFiles example_options example_watchOptions,
         CallWatchFiles example_options example_watchOptions] example_state)
   \<and> stdinReadableListeners (run example_ext
        [CallWatchFiles example_options example_watchOptions,
         CallWatchFiles example_options example_watchOptions] example_state) = 1"
proof -
  have h: "isFlushingStdio example_state" "stdinReadableListeners example_state = 1"
    by (simp_all add: example_state_eq)
  show ?thesis
    using stdin_listener_installed_once
      [where s = example_state and ext = example_ext
        and evs' = "[CallWatchFiles example_options example_watchOptions,
                     CallWatchFiles example_options example_watchOptions]"] h
    by simp
qed

subsection \<open>Debounced refresh of the suppression data\<close>

lemma fired_eq:
  "foldl (\<lambda>s x. suppressedErrorsTimeout_fired (t_gen x) s) s due
     = s\<lparr>tasks := tasks s @ map (\<lambda>x. SuppressedErrorsRead (t_gen x)) due\<rparr>"
  by (induction due arbitrary: s)
     (simp_all add: suppressedErrorsTimeout_fired_def suspend_def)

lemma elapse_sel [simp]:
  "trace (elapse d s) = trace s"
  "gens (elapse d s) = gens s"
  "now (elapse d s) = now s + d"
  "nextTimerId (elapse d s) = nextTimerId s"
  "timers (elapse d s) = filter (\<lambda>x. \<not> t_due x \<le> now s + d) (timers s)"
  "tasks (elapse d s)
     = tasks s @ map (\<lambda>x. SuppressedErrorsRead (t_gen x))
                   (filter (\<lambda>x. t_due x \<le> now s + d) (timers s))"
  by (simp_all add: elapse_def Let_def fired_eq)

lemma updateSuppressedErrors_sel [simp]:
  "trace (updateSuppressedErrors g s) = trace s"
  "tasks (updateSuppressedErrors g s) = tasks s"
  "now (updateSuppressedErrors g s) = now s"
  "nextTimerId (updateSuppressedErrors g s) = Suc (nextTimerId s)"
  "length (gens (updateSuppressedErrors g s)) = length (gens s)"
  "timers (updateSuppressedErrors g s)
     = filter (\<lambda>t. Some (t_id t) \<noteq> suppressedErrorsTimeout (gens s ! g)) (timers s)
       @ [\<lparr>t_id = nextTimerId s, t_due = now s + 20, t_gen = g\<rparr>]"
  by (simp_all add: updateSuppressedErrors_def Let_def split: option.split)

lemma count_reads:
  "count_list (map (\<lambda>x. SuppressedErrorsRead (t_gen x)) ts) (SuppressedErrorsRead g)
     = length (filter (\<lambda>t. t_gen t = g) ts)"
  by (induction ts) simp_all

lemma suppression_event:
  assumes "wellformed s" and "g < length (gens s)" and "k \<noteq> Error"
  shows "step ext (Emit g SuppressionFolder k x) s = updateSuppressedErrors g s"
    and "armed g (updateSuppressedErrors g s)"
proof -
  have ign: "w_ignored (suppressedErrorsWatcher (gens s ! g)) = []"
    using assms(1,2) by (simp add: wellformed_def)
  show "step ext (Emit g SuppressionFolder k x) s = updateSuppressedErrors g s"
    using assms(2,3) ign by (cases k) (simp_all add: emit_event_def)
  have own: "\<forall>t \<in> set (timers s). t_gen t = g
      \<longrightarrow> suppressedErrorsTimeout (gens s ! g) = Some (t_id t)"
    using assms(1) by (auto simp: wellformed_def)
  have "filter (\<lambda>t. t_gen t = g)
      (filter (\<lambda>t. Some (t_id t) \<noteq> suppressedErrorsTimeout (gens s ! g)) (timers s)) = []"
    using own by (auto simp: filter_empty_conv)
  then show "armed g (updateSuppressedErrors g s)"
    using assms(1,2) by (simp add: armed_def wf_updateSuppressedErrors)
qed

lemma short_wait:
  assumes "armed g s" and "d < 20"
  shows "wellformed (elapse d s)" and "g < length (gens (elapse d s))"
    and "trace (elapse d s) = trace s"
    and "count_list (tasks (elapse d s)) (SuppressedErrorsRead g)
         = count_list (tasks s) (SuppressedErrorsRead g)"
proof -
  let ?t = "\<lparr>t_id = nextTimerId s - 1, t_due = now s + 20, t_gen = g\<rparr>"
  have own: "filter (\<lambda>t. t_gen t = g) (timers s) = [?t]"
    using assms(1) by (simp add: armed_def)
  show "wellformed (elapse d s)"
    using assms(1) wf_step [of s ext "Elapse d"] by (simp add: armed_def)
  show "g < length (gens (elapse d s))"
    using assms(1) by (simp add: armed_def)
  show "trace (elapse d s) = trace s" by simp
  have "filter (\<lambda>t. t_gen t = g) (filter (\<lambda>x. t_due x \<le> now s + d) (timers s))
      = filter (\<lambda>x. t_due x \<le> now s + d) (filter (\<lambda>t. t_gen t = g) (timers s))"
    by (simp add: conj_commute)
  also have "\<dots> = []"
    unfolding own using assms(2) by simp
  finally show "count_list (tasks (elapse d s)) (SuppressedErrorsRead g)
      = count_list (tasks s) (SuppressedErrorsRead g)"
    by (simp add: count_reads)
qed

lemma long_wait:
  assumes "armed g s" and "20 \<le> d"
  shows "trace (elapse d s) = trace s"
    and "count_list (tasks (elapse d s)) (SuppressedErrorsRead g)
         = Suc (count_list (tasks s) (SuppressedErrorsRead g))"
    and "filter (\<lambda>t. t_gen t = g) (timers (elapse d s)) = []"
proof -
  let ?t = "\<lparr>t_id = nextTimerId s - 1, t_due = now s + 20, t_gen = g\<rparr>"
  have own: "filter (\<lambda>t. t_gen t = g) (timers s) = [?t]"
    using assms(1) by (simp add: armed_def)
  show "trace (elapse d s) = trace s" by simp
  have "filter (\<lambda>t. t_gen t = g) (filter (\<lambda>x. t_due x \<le> now s + d) (timers s))
      = filter (\<lambda>x. t_due x \<le> now s + d) (filter (\<lambda>t. t_gen t = g) (timers s))"
    by (simp add: conj_commute)
  also have "\<dots> = [?t]"
    unfolding own using assms(2) by simp
  finally show "count_list (tasks (elapse d s)) (SuppressedErrorsRead g)
      = Suc (count_list (tasks s) (SuppressedErrorsRead g))"
    by (simp add: count_reads)
  have "filter (\<lambda>t. t_gen t = g) (filter (\<lambda>x. \<not> t_due x \<le> now s + d) (timers s))
      = filter (\<lambda>x. \<not> t_due x \<le> now s + d) (filter (\<lambda>t. t_gen t = g) (timers s))"
    by (simp add: conj_commute)
  also have "\<dots> = []"
    unfolding own using assms(2) by simp
  finally show "filter (\<lambda>t. t_gen t = g) (timers (elapse d s)) = []"
    by simp
qed

lemma burst_keeps_armed:
  assumes "armed g s" and "\<forall>(d, k, x) \<in> set rest. d < 20 \<and> k \<noteq> Error"
  shows "armed g (run ext (burst_events g rest) s)
    \<and> trace (run ext (burst_events g rest) s) = trace s
    \<and> count_list (tasks (run ext (burst_events g rest) s)) (SuppressedErrorsRead g)
        = count_list (tasks s) (SuppressedErrorsRead g)"
  using assms
proof (induction rest arbitrary: s)
  case Nil
  then show ?case by simp
next
  case (Cons e rest)
  obtain d k x where e: "e = (d, k, x)" by (cases e) auto
  have dk: "d < 20" "k \<noteq> Error" using Cons.prems(2) e by auto
  let ?s1 = "elapse d s"
  let ?s2 = "updateSuppressedErrors g ?s1"
  note w = short_wait [OF Cons.prems(1) dk(1)]
  have ev: "step ext (Emit g SuppressionFolder k x) ?s1 = ?s2" "armed g ?s2"
    using suppression_event [OF w(1) w(2) dk(2)] by simp_all
  have rest: "\<forall>(d, k, x) \<in> set rest. d < 20 \<and> k \<noteq> Error"
    using Cons.prems(2) by simp
  have run: "run ext (burst_events g (e # rest)) s = run ext (burst_events g rest) ?s2"
    using ev(1) by (simp add: e)
  show ?case
    unfolding run using Cons.IH [OF ev(2) rest] w(3,4) by simp
qed

text \<open>
  C6. In any state the process reaches, take a burst of \<open>add\<close>, \<open>change\<close> or \<open>unlink\<close>
  events on the suppression folder of a generation, each less than 20 ms after the one
  before. During the burst nothing is sent and the loader is not called; every event
  leaves exactly one refresh pending, due 20 ms after that event (the pending one is
  replaced and the timer restarted). When 20 ms or more then pass without an event, the
  timer fires once: the loader is called once, after the last event, and no refresh stays
  pending. What the loader returns is then sent in one \<open>updateSuppressedErrors\<close> message.
\<close>

theorem suppression_burst_gives_one_refresh:
  assumes "g < length (gens (run ext evs initial))"
    and "k0 \<noteq> Error"
    and "\<forall>(d, k, x) \<in> set rest. d < 20 \<and> k \<noteq> Error"
    and "20 \<le> silence"
  shows "let s = run ext evs initial;
             sb = run ext (Emit g SuppressionFolder k0 x0 # burst_events g rest) s;
             sf = step ext (Elapse silence) sb
         in trace sb = trace s
          \<and> count_list (tasks sb) (SuppressedErrorsRead g)
              = count_list (tasks s) (SuppressedErrorsRead g)
          \<and> filter (\<lambda>t. t_gen t = g) (timers sb)
              = [\<lparr>t_id = nextTimerId sb - 1, t_due = now sb + 20, t_gen = g\<rparr>]
          \<and> trace sf = trace s
          \<and> count_list (tasks sf) (SuppressedErrorsRead g)
              = Suc (count_list (tasks s) (SuppressedErrorsRead g))
          \<and> filter (\<lambda>t. t_gen t = g) (timers sf) = []
          \<and> (\<forall>i v. i < length (tasks sf) \<and> tasks sf ! i = SuppressedErrorsRead g
               \<longrightarrow> trace (step ext (Settle i (Fulfilled_json v)) sf)
                   = trace sf @ [DebugLog ''Suppressed errors have been added'',
                                 UpdateSuppressedErrors g v])"
proof -
  let ?s = "run ext evs initial"
  let ?s1 = "updateSuppressedErrors g ?s"
  let ?sb = "run ext (Emit g SuppressionFolder k0 x0 # burst_events g rest) ?s"
  let ?sf = "step ext (Elapse silence) ?sb"
  have wf: "wellformed ?s"
    by (intro wf_run wf_initial)
  have ev: "step ext (Emit g SuppressionFolder k0 x0) ?s = ?s1" "armed g ?s1"
    using suppression_event [OF wf assms(1) assms(2)] by simp_all
  have sb: "?sb = run ext (burst_events g rest) ?s1"
    using ev(1) by simp
  have b: "armed g ?sb" "trace ?sb = trace ?s"
    "count_list (tasks ?sb) (SuppressedErrorsRead g)
       = count_list (tasks ?s) (SuppressedErrorsRead g)"
    unfolding sb using burst_keeps_armed [OF ev(2) assms(3), of ext] by simp_all
  have l: "trace ?sf = trace ?sb"
    "count_list (tasks ?sf) (SuppressedErrorsRead g)
       = Suc (count_list (tasks ?sb) (SuppressedErrorsRead g))"
    "filter (\<lambda>t. t_gen t = g) (timers ?sf) = []"
    using long_wait [OF b(1) assms(4)] by simp_all
  have glen: "g < length (gens ?sf)"
    using b(1) by (simp add: armed_def)
  have send: "\<forall>i v. i < length (tasks ?sf) \<and> tasks ?sf ! i = SuppressedErrorsRead g
      \<longrightarrow> trace (step ext (Settle i (Fulfilled_json v)) ?sf)
          = trace ?sf @ [DebugLog ''Suppressed errors have been added'',
                         UpdateSuppressedErrors g v]"
    using glen by (simp add: settle_def suppressedErrorsTimeout_afterRead_def Let_def)
  show ?thesis
    unfolding Let_def using b l send by (simp add: armed_def)
qed

lemma example_burst_sel:
  "tasks (run example_ext example_burst example_state) = []"
  "timers (run example_ext example_burst example_state)
     = [\<lparr>t_id = 3, t_due = 30, t_gen = 0\<rparr>]"
  "tasks (step example_ext (Elapse 20) (run example_ext example_burst example_state))
     = [SuppressedErrorsRead 0]"
  "timers (step example_ext (Elapse 20) (run example_ext example_burst example_state)) = []"
  "trace (step example_ext (Elapse 20) (run example_ext example_burst example_state)) = []"
  by (simp_all add: example_burst_def example_state_eq emit_event_def chokidar_watch_def
      updateSuppressedErrors_def setTimeout_def clearTimeout_def update_gen_def
      elapse_def suppressedErrorsTimeout_fired_def suspend_def Let_def)

theorem suppression_burst_gives_one_refresh_witness:
  "0 < length (gens (run example_ext
         [CallWatchFiles example_options example_watchOptions] initial))
   \<and> Change \<noteq> Error \<and> (5 :: nat) < 20 \<and> (20 :: nat) \<le> 20
   \<and> count_list (tasks (run example_ext example_burst example_state)) (SuppressedErrorsRead 0)
       = 0
   \<and> count_list (tasks (step example_ext (Elapse 20)
         (run example_ext example_burst example_state))) (SuppressedErrorsRead 0) = 1
   \<and> tasks (step example_ext (Elapse 20) (run example_ext example_burst example_state)) ! 0
       = SuppressedErrorsRead 0
   \<and> trace (step example_ext (Settle 0 (Fulfilled_json (JObject [])))
         (step example_ext (Elapse 20) (run example_ext example_burst example_state)))
       = [DebugLog ''Suppressed errors have been added'',
          UpdateSuppressedErrors 0 (JObject [])]"
proof -
  let ?p = "''review/suppressed/NoUnused.json''"
  let ?evs = "[CallWatchFiles example_options example_watchOptions]"
  let ?sb = "run example_ext example_burst example_state"
  let ?sf = "step example_ext (Elapse 20) ?sb"
  have s: "run example_ext ?evs initial = example_state"
    by (simp add: example_state_def)
  have h1: "0 < length (gens (run example_ext ?evs initial))"
    unfolding s by (simp add: example_state_eq)
  have h2: "Change \<noteq> Error" by simp
  have h3: "\<forall>(d, k, x) \<in> set [(5 :: nat, Change, ?p), (5, Change, ?p)]. d < 20 \<and> k \<noteq> Error"
    by simp
  have h4: "(20 :: nat) \<le> 20" by simp
  note T = suppression_burst_gives_one_refresh [OF h1 h2 h3 h4, of ?p,
      unfolded Let_def s, folded example_burst_def]
  have e: "tasks example_state = []" "trace example_state = []"
    by (simp_all add: example_state_eq)
  from T have c0: "count_list (tasks ?sb) (SuppressedErrorsRead 0) = 0"
    by (simp add: e)
  from T have c1: "count_list (tasks ?sf) (SuppressedErrorsRead 0) = 1"
    by (simp add: e)
  have t0: "0 < length (tasks ?sf)" "tasks ?sf ! 0 = SuppressedErrorsRead 0"
    unfolding example_burst_sel by simp_all
  from T t0 have send: "trace (step example_ext (Settle 0 (Fulfilled_json (JObject []))) ?sf)
      = trace ?sf @ [DebugLog ''Suppressed errors have been added'',
                     UpdateSuppressedErrors 0 (JObject [])]"
    by blast
  have "trace ?sf = []"
    unfolding example_burst_sel by simp
  with send h1 h2 h4 c0 c1 t0 show ?thesis
    by simp
qed

end
